theory Spec2Isabelle
  imports Complex_Main "HOL-Library.Word" "HOL-Library.Log_Nat"
begin

unbundle bit_operations_syntax

text \<open>
  A model of the core of the package \<^verbatim>\<open>@hixbe/time\<close>: the NTP packet parser
  (\<^verbatim>\<open>src/core/parser.ts\<close>) and the client with its fallback over a list of servers
  (\<^verbatim>\<open>src/core/client.ts\<close>). Pure functions of the source are functions here; an
  exception is a value \<open>Inl e\<close> of a sum type; the network and the clock, which the client
  reads, are a state that \<open>query\<close> takes and returns.
\<close>

section \<open>JavaScript numbers\<close>

text \<open>
  The program is TypeScript; every \<^verbatim>\<open>number\<close> is an IEEE-754 binary64 value. A finite
  double is modelled by the rational it denotes, and every arithmetic operator of the
  source rounds its exact result to the nearest double, ties to even (\<open>fl\<close>). The
  exponent of the result is clamped at \<open>-1022\<close>, which gives the subnormal range its
  fixed spacing \<open>2 powi (-1074)\<close>. Infinities and NaN are not represented: every divisor in
  the modelled code is a non-zero constant, and the values reached from a packet stay
  below \<open>2 ^ 53\<close>.
\<close>

type_synonym number = rat

text \<open>\<open>ilog2 x\<close> is the binary exponent of \<open>x \<noteq> 0\<close>: \<open>2 powi ilog2 x \<le> \<bar>x\<bar> < 2 powi (ilog2 x + 1)\<close>.\<close>

definition ilog2 :: "rat \<Rightarrow> int" where
  "ilog2 x = (case quotient_of \<bar>x\<bar> of (p, q) \<Rightarrow>
     (let d = bitlen p - bitlen q in if 2 powi d \<le> \<bar>x\<bar> then d else d - 1))"

definition round_half_even :: "rat \<Rightarrow> int" where
  "round_half_even y = (let n = \<lfloor>y\<rfloor>; r = y - of_int n in
     if r < 1 / 2 then n else if 1 / 2 < r then n + 1 else if even n then n else n + 1)"

definition fl :: "rat \<Rightarrow> number" where
  "fl x = (if x = 0 then 0 else
     (let e = max (ilog2 x) (- 1022); u = 2 powi (e - 52)
      in of_int (round_half_even (x / u)) * u))"

definition fadd :: "number \<Rightarrow> number \<Rightarrow> number" where
  "fadd a b = fl (a + b)"

definition fsub :: "number \<Rightarrow> number \<Rightarrow> number" where
  "fsub a b = fl (a - b)"

definition fmul :: "number \<Rightarrow> number \<Rightarrow> number" where
  "fmul a b = fl (a * b)"

definition fdiv :: "number \<Rightarrow> number \<Rightarrow> number" where
  "fdiv a b = fl (a / b)"

section \<open>Dates\<close>

text \<open>
  A valid \<^verbatim>\<open>Date\<close> is its time value, an integral number of milliseconds since the Unix
  epoch. \<^verbatim>\<open>new Date(v)\<close> applies the ECMAScript operation TimeClip: a value beyond
  \<open>8.64e15\<close> in magnitude gives an Invalid Date (\<open>None\<close>), any other value is truncated
  towards zero. \<^verbatim>\<open>toISOString\<close> throws a RangeError on an Invalid Date.

  The two renderings \<^verbatim>\<open>date.toISOString()\<close> and \<^verbatim>\<open>date.toString()\<close> belong to the
  JavaScript runtime (the second depends on the time zone of the host); they are
  parameters of the model.
\<close>

definition TimeClip :: "number \<Rightarrow> int option" where
  "TimeClip v = (if 8640000000000000 < \<bar>v\<bar> then None
     else Some (if 0 \<le> v then \<lfloor>v\<rfloor> else \<lceil>v\<rceil>))"

record runtime =
  toISOString :: "int \<Rightarrow> string"
  dateToString :: "int \<Rightarrow> string"

section \<open>Errors, buffers and strings\<close>

text \<open>
  \<open>Error m\<close> is a JavaScript \<^verbatim>\<open>Error\<close> with message \<open>m\<close>, as the program creates with
  \<^verbatim>\<open>new Error(m)\<close>; \<open>RangeError m\<close> is the error class that the Node.js buffer readers
  and \<^verbatim>\<open>toISOString\<close> throw.
\<close>

datatype error = Error string | RangeError string

fun message :: "error \<Rightarrow> string" where
  "message (Error m) = m"
| "message (RangeError m) = m"

type_synonym byte = "8 word"
type_synonym buffer = "byte list"

text \<open>
  \<^verbatim>\<open>buffer.readUInt32BE(offset)\<close>: Node.js reads
  \<^verbatim>\<open>first * 2**24 + this[++offset] * 2**16 + this[++offset] * 2**8 + last\<close> and throws a
  RangeError when the four bytes are not all inside the buffer.
\<close>

definition readUInt32BE :: "buffer \<Rightarrow> nat \<Rightarrow> error + 32 word" where
  "readUInt32BE buf offset =
     (if offset + 4 \<le> length buf
      then Inr (word_of_nat (unat (buf ! offset) * 2 ^ 24 + unat (buf ! (offset + 1)) * 2 ^ 16
                  + unat (buf ! (offset + 2)) * 2 ^ 8 + unat (buf ! (offset + 3))))
      else Inl (RangeError ''offset is out of range''))"

text \<open>
  \<^verbatim>\<open>Buffer.alloc(4)\<close> followed by \<^verbatim>\<open>writeUInt32BE(value)\<close>: the four bytes of the value,
  most significant first.
\<close>

definition writeUInt32BE :: "32 word \<Rightarrow> buffer" where
  "writeUInt32BE v = [ucast (drop_bit 24 v), ucast (drop_bit 16 v), ucast (drop_bit 8 v), ucast v]"

text \<open>
  \<^verbatim>\<open>buffer.toString('ascii')\<close>: Node.js clears the highest bit of every byte and takes
  the result as a character code.
\<close>

definition asciiChar :: "byte \<Rightarrow> char" where
  "asciiChar b = Char (bit b 0) (bit b 1) (bit b 2) (bit b 3) (bit b 4) (bit b 5) (bit b 6) False"

definition toString_ascii :: "buffer \<Rightarrow> string" where
  "toString_ascii buf = map asciiChar buf"

text \<open>
  \<^verbatim>\<open>n.toString(radix)\<close> and \<^verbatim>\<open>String(n)\<close> for a non-negative integer \<open>n\<close>: the digits of
  \<open>n\<close>, lower case, without leading zeros.
\<close>

definition digitChar :: "nat \<Rightarrow> char" where
  "digitChar d = ''0123456789abcdefghijklmnopqrstuvwxyz'' ! d"

function toStringRadix :: "nat \<Rightarrow> nat \<Rightarrow> string" where
  "toStringRadix radix n =
     (if n < radix \<or> radix < 2 then [digitChar n]
      else toStringRadix radix (n div radix) @ [digitChar (n mod radix)])"
  by pat_completeness auto
termination
  by (relation "measure snd") auto

declare toStringRadix.simps [simp del]

text \<open>\<^verbatim>\<open>s.toUpperCase()\<close> on ASCII text.\<close>

definition toUpperCase_char :: "char \<Rightarrow> char" where
  "toUpperCase_char c =
     (case map_of (zip ''abcdefghijklmnopqrstuvwxyz'' ''ABCDEFGHIJKLMNOPQRSTUVWXYZ'') c of
        Some u \<Rightarrow> u
      | None \<Rightarrow> c)"

definition toUpperCase :: "string \<Rightarrow> string" where
  "toUpperCase s = map toUpperCase_char s"

definition padStart :: "nat \<Rightarrow> char \<Rightarrow> string \<Rightarrow> string" where
  "padStart n c s = replicate (n - length s) c @ s"

definition padEnd :: "nat \<Rightarrow> char \<Rightarrow> string \<Rightarrow> string" where
  "padEnd n c s = s @ replicate (n - length s) c"

fun join :: "string \<Rightarrow> string list \<Rightarrow> string" where
  "join sep [] = []"
| "join sep [s] = s"
| "join sep (s # t # ss) = s @ sep @ join sep (t # ss)"

section \<open>The packet parser (\<^verbatim>\<open>src/core/parser.ts\<close>)\<close>

record RawNTPTimestamp =
  seconds :: "32 word"
  fraction :: "32 word"

text \<open>The anonymous object type of the field \<^verbatim>\<open>unix\<close>.\<close>

record UnixTime =
  seconds :: number
  milliseconds :: number

record ParsedNTPTimestamp =
  raw :: RawNTPTimestamp
  unix :: UnixTime
  date :: int
  iso :: string
  local :: string
  timestamp :: int

record NTPPacketHeader =
  leapIndicator :: byte
  versionNumber :: byte
  mode :: byte
  stratum :: byte
  pollInterval :: byte
  precision :: byte
  rootDelay :: "32 word"
  rootDispersion :: "32 word"
  referenceId :: string

record NTPTimestamps =
  reference :: ParsedNTPTimestamp
  originate :: ParsedNTPTimestamp
  receive :: ParsedNTPTimestamp
  transmit :: ParsedNTPTimestamp

record ParsedNTPPacket =
  header :: NTPPacketHeader
  timestamps :: NTPTimestamps
  roundTripDelay :: "number option"
  clockOffset :: "number option"

definition NTP_EPOCH_OFFSET :: number where
  "NTP_EPOCH_OFFSET = 2208988800"

text \<open>
  \<^verbatim>\<open>parseNTPTimestamp(buffer, offset)\<close>. The numeric value of a 32-bit field is
  \<open>of_nat (unat w)\<close>; \<^verbatim>\<open>date.getTime()\<close> of the valid date is its time value.
\<close>

definition parseNTPTimestamp :: "runtime \<Rightarrow> buffer \<Rightarrow> nat \<Rightarrow> error + ParsedNTPTimestamp" where
  "parseNTPTimestamp rt buf offset =
     (case readUInt32BE buf offset of
        Inl e \<Rightarrow> Inl e
      | Inr secs \<Rightarrow>
     (case readUInt32BE buf (offset + 4) of
        Inl e \<Rightarrow> Inl e
      | Inr fract \<Rightarrow>
     (let millis = fmul (fdiv (of_nat (unat fract)) 4294967296) 1000;
          unixSeconds = fsub (of_nat (unat secs)) NTP_EPOCH_OFFSET
      in (case TimeClip (fadd (fmul unixSeconds 1000) millis) of
           None \<Rightarrow> Inl (RangeError ''Invalid time value'')
         | Some d \<Rightarrow>
             Inr \<lparr>raw = \<lparr>RawNTPTimestamp.seconds = secs, fraction = fract\<rparr>,
                  unix = \<lparr>UnixTime.seconds = unixSeconds, milliseconds = millis\<rparr>,
                  date = d,
                  iso = toISOString rt d,
                  local = dateToString rt d,
                  timestamp = d\<rparr>))))"

text \<open>
  \<^verbatim>\<open>formatReferenceId(id, stratum)\<close>: the literal \<^verbatim>\<open>'KISS'\<close> for stratum 0; for stratum 1
  the four bytes as ASCII with every NUL character removed
  (\<^verbatim>\<open>.replace(/\x00/g, '')\<close>); otherwise \<^verbatim>\<open>0x\<close> and the upper-case hexadecimal digits
  padded to eight.
\<close>

definition formatReferenceId :: "32 word \<Rightarrow> byte \<Rightarrow> string" where
  "formatReferenceId ident strat =
     (if strat = 0 then ''KISS''
      else if strat = 1 then filter (\<lambda>c. c \<noteq> CHR 0x00) (toString_ascii (writeUInt32BE ident))
      else ''0x'' @ padStart 8 (CHR ''0'') (toUpperCase (toStringRadix 16 (unat ident))))"

definition parsePacket :: "runtime \<Rightarrow> buffer \<Rightarrow> error + ParsedNTPPacket" where
  "parsePacket rt buf =
     (if length buf < 48 then Inl (Error ''Invalid NTP packet: minimum 48 bytes required'')
      else
        let firstByte = buf ! 0;
            li = drop_bit 6 firstByte AND 3;
            vn = drop_bit 3 firstByte AND 7;
            md = firstByte AND 7;
            strat = buf ! 1;
            poll = buf ! 2;
            prec = buf ! 3
        in
        (case parseNTPTimestamp rt buf 16 of Inl e \<Rightarrow> Inl e | Inr referenceTimestamp \<Rightarrow>
        (case parseNTPTimestamp rt buf 24 of Inl e \<Rightarrow> Inl e | Inr originateTimestamp \<Rightarrow>
        (case parseNTPTimestamp rt buf 32 of Inl e \<Rightarrow> Inl e | Inr receiveTimestamp \<Rightarrow>
        (case parseNTPTimestamp rt buf 40 of Inl e \<Rightarrow> Inl e | Inr transmitTimestamp \<Rightarrow>
        (case readUInt32BE buf 4 of Inl e \<Rightarrow> Inl e | Inr rdelay \<Rightarrow>
        (case readUInt32BE buf 8 of Inl e \<Rightarrow> Inl e | Inr rdisp \<Rightarrow>
        (case readUInt32BE buf 12 of Inl e \<Rightarrow> Inl e | Inr refid \<Rightarrow>
          Inr \<lparr>header = \<lparr>leapIndicator = li, versionNumber = vn, mode = md, stratum = strat,
                          pollInterval = poll, precision = prec, rootDelay = rdelay,
                          rootDispersion = rdisp, referenceId = formatReferenceId refid strat\<rparr>,
               timestamps = \<lparr>reference = referenceTimestamp, originate = originateTimestamp,
                              receive = receiveTimestamp, transmit = transmitTimestamp\<rparr>,
               roundTripDelay = None,
               clockOffset = None\<rparr>))))))))"

text \<open>
  \<^verbatim>\<open>calculateMetrics(parsed, clientOriginateTime, clientReceiveTime)\<close>; the two dates
  are valid dates, given by their time values.
\<close>

record Metrics =
  roundTripDelay :: number
  clockOffset :: number
  roundTripDelayMs :: number
  clockOffsetMs :: number

definition calculateMetrics :: "ParsedNTPPacket \<Rightarrow> int \<Rightarrow> int \<Rightarrow> Metrics" where
  "calculateMetrics p clientOriginateTime clientReceiveTime =
     (let t1 = fdiv (of_int clientOriginateTime) 1000;
          t2 = fadd (UnixTime.seconds (unix (receive (timestamps p))))
                    (fdiv (milliseconds (unix (receive (timestamps p)))) 1000);
          t3 = fadd (UnixTime.seconds (unix (transmit (timestamps p))))
                    (fdiv (milliseconds (unix (transmit (timestamps p)))) 1000);
          t4 = fdiv (of_int clientReceiveTime) 1000;
          delay = fsub (fsub t4 t1) (fsub t3 t2);
          offs = fdiv (fadd (fsub t2 t1) (fsub t3 t4)) 2
      in \<lparr>roundTripDelay = delay, clockOffset = offs,
          roundTripDelayMs = fmul delay 1000, clockOffsetMs = fmul offs 1000\<rparr>)"

section \<open>The client (\<^verbatim>\<open>src/core/client.ts\<close>)\<close>

record NTPClientConfig =
  host :: "string option"
  port :: "nat option"
  timeout :: "nat option"
  fallbackServers :: "string list option"

record NTPClient =
  host :: string
  port :: nat
  timeout :: nat
  fallbackServers :: "string list"

record NTPQueryResult =
  buffer :: buffer
  hexDump :: string
  parsed :: ParsedNTPPacket
  serverAddress :: string
  clientReceiveTime :: int
  clientOriginateTime :: "int option"
  usedServer :: "string option"

text \<open>
  The constructor. \<^verbatim>\<open>config.host || 'time.hixbe.com'\<close> takes the default for a missing
  and for an empty host, \<^verbatim>\<open>config.port || 123\<close> and \<^verbatim>\<open>config.timeout || 5000\<close> for a
  missing value and for 0; a given list of fallback servers is kept, also when empty.
  Port and timeout are whole numbers.
\<close>

definition new_NTPClient :: "NTPClientConfig \<Rightarrow> NTPClient" where
  "new_NTPClient config =
     \<lparr>host = (case NTPClientConfig.host config of
                 None \<Rightarrow> ''time.hixbe.com''
               | Some h \<Rightarrow> if h = [] then ''time.hixbe.com'' else h),
      port = (case NTPClientConfig.port config of
                 None \<Rightarrow> 123
               | Some p \<Rightarrow> if p = 0 then 123 else p),
      timeout = (case NTPClientConfig.timeout config of
                 None \<Rightarrow> 5000
               | Some t \<Rightarrow> if t = 0 then 5000 else t),
      fallbackServers = (case NTPClientConfig.fallbackServers config of
                 None \<Rightarrow> [''time.google.com'', ''pool.ntp.org'']
               | Some fs \<Rightarrow> fs)\<rparr>"

text \<open>
  \<^verbatim>\<open>hexDump(buffer)\<close>: one line for every 16 bytes, the offset padded to four digits,
  the bytes in hexadecimal separated by blanks and padded to 48 columns, and the bytes as
  ASCII with every character outside \<^verbatim>\<open>\x20-\x7E\<close> replaced by a dot.
\<close>

definition hexByte :: "byte \<Rightarrow> string" where
  "hexByte b = [digitChar (unat b div 16), digitChar (unat b mod 16)]"

definition printable :: "char \<Rightarrow> char" where
  "printable c = (if (32::nat) \<le> of_char c \<and> (of_char c :: nat) \<le> 126 then c else CHR ''.'')"

function hexDump_from :: "nat \<Rightarrow> buffer \<Rightarrow> string" where
  "hexDump_from i buf =
     (if i < length buf then
        (let chunk = take 16 (drop i buf);
             hex = join '' '' (map hexByte chunk);
             ascii = map printable (toString_ascii chunk)
         in padStart 4 (CHR ''0'') (toStringRadix 10 i) @ '': '' @ padEnd 48 (CHR '' '') hex
              @ '' '' @ ascii @ [CHR 0x0A] @ hexDump_from (i + 16) buf)
      else [])"
  by pat_completeness auto
termination
  by (relation "measure (\<lambda>(i, buf). length buf - i)") auto

declare hexDump_from.simps [simp del]

definition hexDump_of :: "buffer \<Rightarrow> string" where
  "hexDump_of buf = hexDump_from 0 buf"

text \<open>
  One attempt, \<^verbatim>\<open>queryServer(host)\<close>, builds a promise that is settled by the first of
  three callbacks; the network and the clock decide which. An \<open>event\<close> is that decision:
  \<^item> \<open>Message buf address recv now\<close>: a datagram \<open>buf\<close> arrived from \<open>address\<close>; \<open>recv\<close> is
    the reading of \<^verbatim>\<open>new Date()\<close> and \<open>now\<close> the later reading of \<^verbatim>\<open>Date.now()\<close>;
  \<^item> \<open>TimerExpired\<close>: the timeout fired first;
  \<^item> \<open>Failure e\<close>: the socket raised \<^verbatim>\<open>'error'\<close> or the send failed, with error \<open>e\<close>.

  The request that \<^verbatim>\<open>createRequestPacket\<close> builds (first byte \<^verbatim>\<open>0x23\<close>, the current
  time and a random fraction in the transmit field) only leaves the program; the reply to
  it is part of the event.
\<close>

datatype event = Message buffer string int int | TimerExpired | Failure error

definition queryServer :: "runtime \<Rightarrow> NTPClient \<Rightarrow> string \<Rightarrow> event \<Rightarrow> error + NTPQueryResult" where
  "queryServer rt c server ev =
     (case ev of
        TimerExpired \<Rightarrow>
          Inl (Error (''NTP request timeout after '' @ toStringRadix 10 (timeout c) @ ''ms to '' @ server))
      | Failure e \<Rightarrow> Inl e
      | Message buf address recv now \<Rightarrow>
          (case parsePacket rt buf of
             Inl e \<Rightarrow> Inl e
           | Inr p \<Rightarrow>
               Inr \<lparr>buffer = buf,
                    hexDump = hexDump_of buf,
                    parsed = p,
                    serverAddress = address,
                    clientReceiveTime = recv,
                    clientOriginateTime = TimeClip (fsub (of_int now) (fdiv (of_nat (timeout c)) 2)),
                    usedServer = Some server\<rparr>))"

text \<open>
  \<^verbatim>\<open>query()\<close>. The world outside the program is a state \<open>w\<close> of any type; \<open>net w server p\<close>
  is what happens when a request is sent to \<open>server\<close> at port \<open>p\<close> in state \<open>w\<close>: the event
  that settles the attempt, and the next state. The loop keeps \<^verbatim>\<open>lastError\<close>; the host
  list is never empty, and \<^verbatim>\<open>lastError?.message\<close> of \<^verbatim>\<open>null\<close> would print as
  \<^verbatim>\<open>undefined\<close>.
\<close>

fun query_loop ::
  "runtime \<Rightarrow> NTPClient \<Rightarrow> ('w \<Rightarrow> string \<Rightarrow> nat \<Rightarrow> event \<times> 'w) \<Rightarrow> string list \<Rightarrow> string list
     \<Rightarrow> error option \<Rightarrow> 'w \<Rightarrow> (error + NTPQueryResult) \<times> 'w" where
  "query_loop rt c net servers [] lastError w =
     (Inl (Error (''NTP query failed for all servers ('' @ join '', '' servers @ ''): ''
                    @ (case lastError of None \<Rightarrow> ''undefined'' | Some e \<Rightarrow> message e))), w)"
| "query_loop rt c net servers (server # rest) lastError w =
     (case net w server (port c) of
        (ev, w') \<Rightarrow>
          (case queryServer rt c server ev of
             Inr result \<Rightarrow> (Inr result, w')
           | Inl e \<Rightarrow> query_loop rt c net servers rest (Some e) w'))"

definition query ::
  "runtime \<Rightarrow> NTPClient \<Rightarrow> ('w \<Rightarrow> string \<Rightarrow> nat \<Rightarrow> event \<times> 'w) \<Rightarrow> 'w \<Rightarrow> (error + NTPQueryResult) \<times> 'w" where
  "query rt c net w =
     (let servers = host c # fallbackServers c in query_loop rt c net servers servers None w)"

definition getTime ::
  "runtime \<Rightarrow> NTPClient \<Rightarrow> ('w \<Rightarrow> string \<Rightarrow> nat \<Rightarrow> event \<times> 'w) \<Rightarrow> 'w \<Rightarrow> (error + int) \<times> 'w" where
  "getTime rt c net w =
     (case query rt c net w of
        (Inl e, w') \<Rightarrow> (Inl e, w')
      | (Inr result, w') \<Rightarrow> (Inr (date (transmit (timestamps (parsed result)))), w'))"

definition getOffset ::
  "runtime \<Rightarrow> NTPClient \<Rightarrow> ('w \<Rightarrow> string \<Rightarrow> nat \<Rightarrow> event \<times> 'w) \<Rightarrow> 'w \<Rightarrow> (error + number) \<times> 'w" where
  "getOffset rt c net w =
     (case query rt c net w of
        (Inl e, w') \<Rightarrow> (Inl e, w')
      | (Inr result, w') \<Rightarrow>
          (let serverTime = date (transmit (timestamps (parsed result)));
               localTime = clientReceiveTime result
           in (Inr (fsub (of_int serverTime) (of_int localTime)), w')))"

section \<open>Observing the attempts\<close>

text \<open>
  \<open>recording net\<close> behaves as \<open>net\<close> and appends every attempt, the host contacted and the
  event that settled it, to a trace kept beside the state of the world. The trace makes
  the order of the attempts of \<open>query\<close> a part of its result.
\<close>

definition recording ::
  "('w \<Rightarrow> string \<Rightarrow> nat \<Rightarrow> event \<times> 'w) \<Rightarrow> 'w \<times> (string \<times> event) list \<Rightarrow> string \<Rightarrow> nat
     \<Rightarrow> event \<times> ('w \<times> (string \<times> event) list)" where
  "recording net state server p =
     (case state of
        (w, trace) \<Rightarrow> (case net w server p of (ev, w') \<Rightarrow> (ev, (w', trace @ [(server, ev)]))))"

section \<open>Sample inputs\<close>

text \<open>
  Concrete inputs on which the theorems below are instantiated: a runtime whose two
  renderings are empty, and a 48-byte server reply (version 4, mode 4, stratum 2,
  reference identifier \<^verbatim>\<open>D8 EF 23 0C\<close>).
\<close>

definition plain_runtime :: runtime where
  "plain_runtime = \<lparr>toISOString = (\<lambda>d. []), dateToString = (\<lambda>d. [])\<rparr>"

definition sample_packet :: buffer where
  "sample_packet =
     [0x24, 0x02, 0x06, 0xE9, 0x00, 0x00, 0x00, 0x10, 0x00, 0x00, 0x00, 0x20, 0xD8, 0xEF, 0x23, 0x0C,
      0xEC, 0xFF, 0x00, 0x00, 0x80, 0x00, 0x00, 0x00,
      0x00, 0x00, 0x00, 0x00, 0x00, 0x00, 0x00, 0x00,
      0xEC, 0xFF, 0x00, 0x01, 0xFF, 0xFF, 0xFF, 0xFF,
      0xEC, 0xFF, 0x00, 0x01, 0x19, 0x99, 0x99, 0x9A]"

text \<open>
  A scripted network, whose state is the list of the events still to come (when the
  script is exhausted, every further attempt times out), and the client that the
  constructor builds from an empty configuration.
\<close>

definition scripted_net :: "event list \<Rightarrow> string \<Rightarrow> nat \<Rightarrow> event \<times> event list" where
  "scripted_net evs server p = (case evs of [] \<Rightarrow> (TimerExpired, []) | ev # rest \<Rightarrow> (ev, rest))"

definition default_client :: NTPClient where
  "default_client =
     new_NTPClient \<lparr>NTPClientConfig.host = None, NTPClientConfig.port = None,
                     NTPClientConfig.timeout = None, NTPClientConfig.fallbackServers = None\<rparr>"

text \<open>
  The packet of the specification's worked example for \<open>calculateMetrics\<close>: receive and
  transmit timestamp are both 1000.100 s after the Unix epoch (\<^verbatim>\<open>unix.seconds\<close> 1000,
  \<^verbatim>\<open>unix.milliseconds\<close> 100).
\<close>

definition worked_timestamp :: ParsedNTPTimestamp where
  "worked_timestamp =
     \<lparr>raw = \<lparr>RawNTPTimestamp.seconds = 2208989800, fraction = 429496730\<rparr>,
      unix = \<lparr>UnixTime.seconds = 1000, milliseconds = 100\<rparr>,
      date = 1000100, iso = [], local = [], timestamp = 1000100\<rparr>"

definition worked_example :: ParsedNTPPacket where
  "worked_example =
     \<lparr>header = \<lparr>leapIndicator = 0, versionNumber = 4, mode = 4, stratum = 2, pollInterval = 6,
                 precision = 0xE9, rootDelay = 0, rootDispersion = 0, referenceId = ''0xD8EF230C''\<rparr>,
      timestamps = \<lparr>reference = worked_timestamp, originate = worked_timestamp,
                      receive = worked_timestamp, transmit = worked_timestamp\<rparr>,
      ParsedNTPPacket.roundTripDelay = None,
      ParsedNTPPacket.clockOffset = None\<rparr>"

text \<open>
  A reply of a primary server: stratum 1, and the reference identifier bytes are
  \<^verbatim>\<open>GPS\<close> and a NUL.
\<close>

definition gps_packet :: buffer where
  "gps_packet =
     [0x24, 0x01, 0x06, 0xE9, 0x00, 0x00, 0x00, 0x00, 0x00, 0x00, 0x00, 0x10, 0x47, 0x50, 0x53, 0x00,
      0xEC, 0xFF, 0x00, 0x00, 0x80, 0x00, 0x00, 0x00,
      0x00, 0x00, 0x00, 0x00, 0x00, 0x00, 0x00, 0x00,
      0xEC, 0xFF, 0x00, 0x01, 0xFF, 0xFF, 0xFF, 0xFF,
      0xEC, 0xFF, 0x00, 0x01, 0x19, 0x99, 0x99, 0x9A]"

text \<open>
  A kiss-of-death reply: stratum 0, and the reference identifier bytes spell \<^verbatim>\<open>DENY\<close>.
\<close>

definition deny_packet :: buffer where
  "deny_packet =
     [0xE4, 0x00, 0x06, 0xE9, 0x00, 0x00, 0x00, 0x00, 0x00, 0x00, 0x00, 0x00, 0x44, 0x45, 0x4E, 0x59,
      0x00, 0x00, 0x00, 0x00, 0x00, 0x00, 0x00, 0x00,
      0x00, 0x00, 0x00, 0x00, 0x00, 0x00, 0x00, 0x00,
      0xEC, 0xFF, 0x00, 0x01, 0xFF, 0xFF, 0xFF, 0xFF,
      0xEC, 0xFF, 0x00, 0x01, 0x19, 0x99, 0x99, 0x9A]"

section \<open>Reading hexadecimal text\<close>

text \<open>
  The number that a string of upper-case hexadecimal digits denotes; it states what
  \<open>formatReferenceId\<close> prints for a stratum of 2 or more.
\<close>

definition hexDigitValue :: "char \<Rightarrow> nat" where
  "hexDigitValue c =
     (case map_of (zip ''0123456789ABCDEF'' [0, 1, 2, 3, 4, 5, 6, 7, 8, 9, 10, 11, 12, 13, 14, 15]) c of
        Some v \<Rightarrow> v
      | None \<Rightarrow> 0)"

definition hexValue :: "string \<Rightarrow> nat" where
  "hexValue s = foldl (\<lambda>v c. 16 * v + hexDigitValue c) 0 s"

section \<open>Facts about rounding to a double\<close>

lemma pow2_bitlen:
  assumes "0 < p"
  shows "(2::rat) powi (bitlen p - 1) \<le> of_int p" and "of_int p < (2::rat) powi (bitlen p)"
proof -
  from assms have b: "1 \<le> bitlen p" by (simp add: bitlen_alt_def)
  from bitlen_bounds [OF assms]
  have lo: "2 ^ nat (bitlen p - 1) \<le> p" and hi: "p < 2 ^ nat (bitlen p)" by auto
  from lo have "(of_int (2 ^ nat (bitlen p - 1)) :: rat) \<le> of_int p"
    by (simp only: of_int_le_iff)
  with b show "(2::rat) powi (bitlen p - 1) \<le> of_int p"
    by (simp add: power_int_def)
  from hi have "(of_int p :: rat) < of_int (2 ^ nat (bitlen p))"
    by (simp only: of_int_less_iff)
  with b show "of_int p < (2::rat) powi (bitlen p)"
    by (simp add: power_int_def)
qed

lemma ilog2_bounds:
  assumes "x \<noteq> 0"
  shows "2 powi ilog2 x \<le> \<bar>x\<bar>" and "\<bar>x\<bar> < 2 powi (ilog2 x + 1)"
proof -
  obtain p q where pq: "quotient_of \<bar>x\<bar> = (p, q)" by (cases "quotient_of \<bar>x\<bar>")
  then have q: "0 < q" by (rule quotient_of_denom_pos)
  from pq have x: "\<bar>x\<bar> = of_int p / of_int q" by (rule quotient_of_div)
  from assms have "0 < \<bar>x\<bar>" by simp
  with x q have p: "0 < p" by (simp add: zero_less_divide_iff)
  let ?d = "bitlen p - bitlen q"
  have "\<bar>x\<bar> * 2 powi (bitlen q - 1) \<le> \<bar>x\<bar> * of_int q"
    using pow2_bitlen(1) [OF q] by (intro mult_left_mono) simp_all
  also have "\<dots> = of_int p" using x q by simp
  also have "\<dots> < 2 powi bitlen p" by (rule pow2_bitlen(2) [OF p])
  finally have "\<bar>x\<bar> * 2 powi (bitlen q - 1) < 2 powi bitlen p" .
  then have "\<bar>x\<bar> < 2 powi bitlen p / 2 powi (bitlen q - 1)"
    by (simp add: pos_less_divide_eq)
  then have up: "\<bar>x\<bar> < 2 powi (?d + 1)"
    by (simp add: power_int_diff [symmetric] algebra_simps)
  have "2 powi (bitlen p - 1) \<le> (of_int p :: rat)" by (rule pow2_bitlen(1) [OF p])
  also have "\<dots> = \<bar>x\<bar> * of_int q" using x q by simp
  also have "\<dots> \<le> \<bar>x\<bar> * 2 powi bitlen q"
    using pow2_bitlen(2) [OF q] by (intro mult_left_mono) simp_all
  finally have "2 powi (bitlen p - 1) / 2 powi bitlen q \<le> \<bar>x\<bar>"
    by (simp add: pos_divide_le_eq)
  then have lo: "2 powi (?d - 1) \<le> \<bar>x\<bar>"
    by (simp add: power_int_diff [symmetric] algebra_simps)
  show "2 powi ilog2 x \<le> \<bar>x\<bar>"
    using lo by (simp add: ilog2_def pq Let_def)
  show "\<bar>x\<bar> < 2 powi (ilog2 x + 1)"
    using up by (auto simp add: ilog2_def pq Let_def not_le)
qed

lemma pow2_less_imp_less:
  assumes "(2::rat) powi a < 2 powi b"
  shows "a < b"
proof (rule ccontr)
  assume "\<not> a < b"
  then have "b \<le> a" by simp
  then have "(2::rat) powi b \<le> 2 powi a" by (intro power_int_increasing) simp_all
  with assms show False by simp
qed

lemma round_half_even_of_int [simp]: "round_half_even (of_int n) = n"
  by (simp add: round_half_even_def)

lemma round_half_even_le:
  assumes "y \<le> of_int N"
  shows "round_half_even y \<le> N"
proof (cases "\<lfloor>y\<rfloor> < N")
  case True
  then show ?thesis by (simp add: round_half_even_def Let_def)
next
  case False
  moreover from assms have "\<lfloor>y\<rfloor> \<le> N" by (simp add: floor_le_iff)
  ultimately have n: "\<lfloor>y\<rfloor> = N" by simp
  have "of_int \<lfloor>y\<rfloor> \<le> y" by simp
  with n assms have "y = of_int N" by simp
  then show ?thesis by simp
qed

lemma round_half_even_ge:
  assumes "of_int N \<le> y"
  shows "N \<le> round_half_even y"
proof -
  from assms have "N \<le> \<lfloor>y\<rfloor>" by (simp add: le_floor_iff)
  then show ?thesis by (simp add: round_half_even_def Let_def)
qed

lemma fl_exact:
  assumes m: "\<bar>m\<bar> < 2 ^ 53" and k: "- 1074 \<le> k"
  shows "fl (of_int m * 2 powi k) = of_int m * 2 powi k"
proof (cases "m = 0")
  case True
  then show ?thesis by (simp add: fl_def)
next
  case False
  let ?x = "of_int m * 2 powi k :: rat"
  have x0: "?x \<noteq> 0" using False by simp
  define e where "e = max (ilog2 ?x) (- 1022)"
  have "2 powi ilog2 ?x \<le> \<bar>?x\<bar>" by (rule ilog2_bounds(1) [OF x0])
  also have "\<bar>?x\<bar> = of_int \<bar>m\<bar> * 2 powi k" by (simp add: abs_mult)
  also have "\<dots> < 2 ^ 53 * 2 powi k"
  proof -
    from m have "(of_int \<bar>m\<bar> :: rat) < of_int (2 ^ 53)" by (simp only: of_int_less_iff)
    then show ?thesis by (simp del: of_int_abs)
  qed
  also have "\<dots> = 2 powi (53 + k)" by (simp add: power_int_add)
  finally have "ilog2 ?x < 53 + k" by (rule pow2_less_imp_less)
  with k have j: "0 \<le> k - (e - 52)" by (simp add: e_def)
  define u :: rat where "u = 2 powi (e - 52)"
  define M :: int where "M = m * 2 ^ nat (k - (e - 52))"
  have u: "u \<noteq> 0" by (simp add: u_def)
  have "(2::rat) powi k = 2 powi (k - (e - 52)) * u"
    unfolding u_def by (simp flip: power_int_add)
  also have "(2::rat) powi (k - (e - 52)) = of_int (2 ^ nat (k - (e - 52)))"
    using j by (simp add: power_int_def)
  finally have xM: "?x = of_int M * u" by (simp add: M_def)
  then have "?x / u = of_int M" using u by simp
  then have "of_int (round_half_even (?x / u)) * u = ?x"
    by (simp only: round_half_even_of_int xM)
  moreover have "fl ?x = of_int (round_half_even (?x / u)) * u"
    using x0 by (simp add: fl_def Let_def e_def u_def)
  ultimately show ?thesis by simp
qed

lemma fl_of_int: "\<bar>n\<bar> < 2 ^ 53 \<Longrightarrow> fl (of_int n) = of_int n"
  using fl_exact [of n 0] by simp

lemma fl_abs_le:
  assumes x: "\<bar>x\<bar> \<le> 2 powi n" and n: "- 1022 \<le> n"
  shows "\<bar>fl x\<bar> \<le> 2 powi n"
proof (cases "x = 0")
  case True
  then show ?thesis by (simp add: fl_def)
next
  case False
  define e where "e = max (ilog2 x) (- 1022)"
  define u :: rat where "u = 2 powi (e - 52)"
  define N :: int where "N = 2 ^ nat (n - e + 52)"
  have u: "0 < u" by (simp add: u_def)
  have "2 powi ilog2 x \<le> \<bar>x\<bar>" by (rule ilog2_bounds(1) [OF False])
  also have "\<bar>x\<bar> < 2 powi (n + 1)"
    using x by (rule le_less_trans) (intro power_int_strict_increasing, simp_all)
  finally have "ilog2 x < n + 1" by (rule pow2_less_imp_less)
  with n have en: "e \<le> n" by (simp add: e_def)
  then have "of_int N = (2::rat) powi (n - e + 52)"
    by (simp add: N_def power_int_def)
  then have N: "of_int N * u = 2 powi n"
    by (simp add: u_def flip: power_int_add)
  define y where "y = x / u"
  from x N have "\<bar>x\<bar> \<le> of_int N * u" by simp
  with u have "\<bar>x\<bar> / u \<le> of_int N" by (simp only: pos_divide_le_eq)
  moreover from u have "\<bar>y\<bar> = \<bar>x\<bar> / u" by (simp add: y_def)
  ultimately have "\<bar>y\<bar> \<le> of_int N" by simp
  then have lo: "of_int (- N) \<le> y" and hi: "y \<le> of_int N"
    by (simp_all add: abs_le_iff minus_le_iff)
  have "- N \<le> round_half_even y" using lo by (rule round_half_even_ge)
  moreover have "round_half_even y \<le> N" using hi by (rule round_half_even_le)
  ultimately have "\<bar>round_half_even y\<bar> \<le> N" by simp
  then have "(of_int \<bar>round_half_even y\<bar> :: rat) \<le> of_int N" by (simp only: of_int_le_iff)
  with u have "\<bar>of_int (round_half_even y) * u\<bar> \<le> of_int N * u" by (simp add: abs_mult)
  moreover have "fl x = of_int (round_half_even y) * u"
    using False by (simp add: fl_def Let_def e_def u_def y_def)
  ultimately show ?thesis using N by simp
qed

section \<open>Facts about the big-endian fields\<close>

lemma unat_byte_less: "unat (b :: byte) < 256"
  using unsigned_less [of b, where ?'a = nat] by simp

lemma be32_digits:
  fixes a b c d :: nat
  assumes "a < 256" "b < 256" "c < 256" "d < 256"
  shows "(a * 2 ^ 24 + b * 2 ^ 16 + c * 2 ^ 8 + d) div 2 ^ 24 mod 256 = a"
    and "(a * 2 ^ 24 + b * 2 ^ 16 + c * 2 ^ 8 + d) div 2 ^ 16 mod 256 = b"
    and "(a * 2 ^ 24 + b * 2 ^ 16 + c * 2 ^ 8 + d) div 2 ^ 8 mod 256 = c"
    and "(a * 2 ^ 24 + b * 2 ^ 16 + c * 2 ^ 8 + d) mod 256 = d"
    and "a * 2 ^ 24 + b * 2 ^ 16 + c * 2 ^ 8 + d < 2 ^ 32"
proof -
  define n where "n = a * 2 ^ 24 + b * 2 ^ 16 + c * 2 ^ 8 + d"
  have n: "n = ((a * 256 + b) * 256 + c) * 256 + d" by (simp add: n_def)
  have d1: "n div 256 = (a * 256 + b) * 256 + c" using assms(4) by (simp add: n)
  have "n div 65536 = n div 256 div 256" by (simp flip: div_mult2_eq)
  then have d2: "n div 65536 = a * 256 + b" using assms(3) by (simp add: d1)
  have "n div 16777216 = n div 65536 div 256" by (simp flip: div_mult2_eq)
  then have d3: "n div 16777216 = a" using assms(2) by (simp add: d2)
  have m0: "n mod 256 = d" by (simp only: n mod_mult_self3 mod_less assms)
  have m1: "n div 256 mod 256 = c" by (simp only: d1 mod_mult_self3 mod_less assms)
  have m2: "n div 65536 mod 256 = b" by (simp only: d2 mod_mult_self3 mod_less assms)
  have m3: "n div 16777216 mod 256 = a" by (simp only: d3 mod_less assms)
  show "(a * 2 ^ 24 + b * 2 ^ 16 + c * 2 ^ 8 + d) div 2 ^ 24 mod 256 = a"
    using m3 unfolding n_def by simp
  show "(a * 2 ^ 24 + b * 2 ^ 16 + c * 2 ^ 8 + d) div 2 ^ 16 mod 256 = b"
    using m2 unfolding n_def by simp
  show "(a * 2 ^ 24 + b * 2 ^ 16 + c * 2 ^ 8 + d) div 2 ^ 8 mod 256 = c"
    using m1 unfolding n_def by simp
  show "(a * 2 ^ 24 + b * 2 ^ 16 + c * 2 ^ 8 + d) mod 256 = d"
    using m0 unfolding n_def by simp
  show "a * 2 ^ 24 + b * 2 ^ 16 + c * 2 ^ 8 + d < 2 ^ 32"
    using assms by simp
qed

lemma unat_be32:
  fixes a b c d :: byte
  shows "unat (word_of_nat (unat a * 2 ^ 24 + unat b * 2 ^ 16 + unat c * 2 ^ 8 + unat d) :: 32 word)
         = unat a * 2 ^ 24 + unat b * 2 ^ 16 + unat c * 2 ^ 8 + unat d"
  using be32_digits(5) [OF unat_byte_less unat_byte_less unat_byte_less unat_byte_less, of a b c d]
  by (simp only: unat_of_nat) simp

lemma writeUInt32BE_be32:
  fixes a b c d :: byte
  shows "writeUInt32BE (word_of_nat (unat a * 2 ^ 24 + unat b * 2 ^ 16 + unat c * 2 ^ 8 + unat d))
         = [a, b, c, d]"
proof -
  let ?n = "unat a * 2 ^ 24 + unat b * 2 ^ 16 + unat c * 2 ^ 8 + unat d"
  let ?w = "word_of_nat ?n :: 32 word"
  note dg = be32_digits [OF unat_byte_less unat_byte_less unat_byte_less unat_byte_less, of a b c d]
  have u: "unat ?w = ?n" by (rule unat_be32)
  have "unat (ucast (drop_bit 24 ?w) :: byte) = unat a"
    using dg(1) by (simp only: unsigned_ucast_eq unat_drop_bit_eq u) (simp add: drop_bit_eq_div take_bit_eq_mod)
  moreover have "unat (ucast (drop_bit 16 ?w) :: byte) = unat b"
    using dg(2) by (simp only: unsigned_ucast_eq unat_drop_bit_eq u) (simp add: drop_bit_eq_div take_bit_eq_mod)
  moreover have "unat (ucast (drop_bit 8 ?w) :: byte) = unat c"
    using dg(3) by (simp only: unsigned_ucast_eq unat_drop_bit_eq u) (simp add: drop_bit_eq_div take_bit_eq_mod)
  moreover have "unat (ucast ?w :: byte) = unat d"
    using dg(4) by (simp only: unsigned_ucast_eq u) (simp add: take_bit_eq_mod)
  ultimately show ?thesis
    by (simp only: writeUInt32BE_def word_unat_eq_iff list.inject)
qed

lemma readUInt32BE_Inr:
  "offset + 4 \<le> length buf \<Longrightarrow> \<exists>w. readUInt32BE buf offset = Inr w"
  by (simp add: readUInt32BE_def)

lemma take4_drop:
  assumes "offset + 4 \<le> length buf"
  shows "take 4 (drop offset buf)
         = [buf ! offset, buf ! (offset + 1), buf ! (offset + 2), buf ! (offset + 3)]"
proof (rule nth_equalityI)
  show "length (take 4 (drop offset buf))
        = length [buf ! offset, buf ! (offset + 1), buf ! (offset + 2), buf ! (offset + 3)]"
    using assms by simp
next
  fix i
  assume "i < length (take 4 (drop offset buf))"
  then have "i < 4" by simp
  then consider "i = 0" | "i = 1" | "i = 2" | "i = 3" by linarith
  then show "take 4 (drop offset buf) ! i
        = [buf ! offset, buf ! (offset + 1), buf ! (offset + 2), buf ! (offset + 3)] ! i"
    using assms by cases (simp_all add: numeral_3_eq_3 numeral_2_eq_2)
qed

lemma writeUInt32BE_readUInt32BE:
  assumes "readUInt32BE buf offset = Inr w"
  shows "writeUInt32BE w = take 4 (drop offset buf)"
proof -
  from assms have len: "offset + 4 \<le> length buf"
    by (simp add: readUInt32BE_def split: if_splits)
  with assms have "w = word_of_nat (unat (buf ! offset) * 2 ^ 24 + unat (buf ! (offset + 1)) * 2 ^ 16
                  + unat (buf ! (offset + 2)) * 2 ^ 8 + unat (buf ! (offset + 3)))"
    by (simp add: readUInt32BE_def)
  then show ?thesis
    by (simp only: writeUInt32BE_be32 take4_drop [OF len])
qed

lemma le32_digits:
  fixes n :: nat
  assumes "n < 2 ^ 32"
  shows "n div 2 ^ 24 mod 256 * 2 ^ 24 + n div 2 ^ 16 mod 256 * 2 ^ 16
           + n div 2 ^ 8 mod 256 * 2 ^ 8 + n mod 256 = n"
proof -
  define a where "a = n div 16777216"
  define b where "b = n div 65536 mod 256"
  define c where "c = n div 256 mod 256"
  define d where "d = n mod 256"
  have "n div 16777216 = n div 65536 div 256" by (simp flip: div_mult2_eq)
  then have h2: "n div 65536 = a * 256 + b" by (simp add: a_def b_def)
  have "n div 65536 = n div 256 div 256" by (simp flip: div_mult2_eq)
  then have h1: "n div 256 = n div 65536 * 256 + c" by (simp add: c_def)
  have h0: "n = n div 256 * 256 + d" by (simp add: d_def)
  have "a < 256" using assms by (simp add: a_def)
  then have am: "a mod 256 = a" by simp
  have nn: "n = a * 16777216 + b * 65536 + c * 256 + d"
  proof -
    have "n = n div 256 * 256 + d" by (rule h0)
    also have "\<dots> = (n div 65536 * 256 + c) * 256 + d" using h1 by simp
    also have "\<dots> = ((a * 256 + b) * 256 + c) * 256 + d" using h2 by simp
    also have "\<dots> = a * 16777216 + b * 65536 + c * 256 + d" by (simp add: algebra_simps)
    finally show ?thesis .
  qed
  from nn [symmetric] am show ?thesis unfolding a_def b_def c_def d_def by simp
qed

lemma readUInt32BE_writeUInt32BE:
  "readUInt32BE (writeUInt32BE w @ rest) 0 = Inr w"
proof -
  let ?n = "unat w"
  have n: "?n < 2 ^ 32" using unsigned_less [of w, where ?'a = nat] by simp
  have b3: "unat (ucast (drop_bit 24 w) :: byte) = ?n div 2 ^ 24 mod 256"
    by (simp only: unsigned_ucast_eq unat_drop_bit_eq) (simp add: drop_bit_eq_div take_bit_eq_mod)
  have b2: "unat (ucast (drop_bit 16 w) :: byte) = ?n div 2 ^ 16 mod 256"
    by (simp only: unsigned_ucast_eq unat_drop_bit_eq) (simp add: drop_bit_eq_div take_bit_eq_mod)
  have b1: "unat (ucast (drop_bit 8 w) :: byte) = ?n div 2 ^ 8 mod 256"
    by (simp only: unsigned_ucast_eq unat_drop_bit_eq) (simp add: drop_bit_eq_div take_bit_eq_mod)
  have b0: "unat (ucast w :: byte) = ?n mod 256"
    by (simp only: unsigned_ucast_eq) (simp add: take_bit_eq_mod)
  have "(word_of_nat (unat (ucast (drop_bit 24 w) :: byte) * 2 ^ 24
           + unat (ucast (drop_bit 16 w) :: byte) * 2 ^ 16
           + unat (ucast (drop_bit 8 w) :: byte) * 2 ^ 8 + unat (ucast w :: byte)) :: 32 word) = w"
    by (simp only: b3 b2 b1 b0 le32_digits [OF n]) simp
  then show ?thesis
    by (simp add: readUInt32BE_def writeUInt32BE_def del: of_nat_add of_nat_mult)
qed

section \<open>Facts about the parser\<close>

lemma uint32_bounds:
  fixes s :: "32 word"
  shows "0 \<le> uint s" and "uint s < 4294967296"
  using unsigned_less [of s, where ?'a = int] by simp_all

lemma unixSeconds_exact:
  fixes s :: "32 word"
  shows "fsub (of_nat (unat s)) NTP_EPOCH_OFFSET = of_int (uint s - 2208988800)"
proof -
  have "\<bar>uint s - 2208988800\<bar> < 9007199254740992"
    using uint32_bounds [of s] by linarith
  then have "\<bar>uint s - 2208988800\<bar> < 2 ^ 53" by simp
  then have "fl (of_int (uint s - 2208988800)) = of_int (uint s - 2208988800)"
    by (rule fl_of_int)
  then show ?thesis
    by (simp add: fsub_def NTP_EPOCH_OFFSET_def)
qed

lemma milliseconds_exact:
  fixes f :: "32 word"
  shows "fmul (fdiv (of_nat (unat f)) 4294967296) 1000 = of_int (uint f) * 1000 / 4294967296"
proof -
  define q :: rat where "q = of_int (uint f) / 4294967296"
  have "\<bar>uint f\<bar> < 9007199254740992" using uint32_bounds [of f] by linarith
  then have "\<bar>uint f\<bar> < 2 ^ 53" by simp
  then have a: "fl (of_int (uint f) * 2 powi (- 32)) = of_int (uint f) * 2 powi (- 32)"
    by (rule fl_exact) simp
  have b: "of_int (uint f) * 2 powi (- 32) = q"
    by (simp add: q_def power_int_minus field_simps)
  from a have "fl q = q" by (simp only: b)
  then have d: "fdiv (of_nat (unat f)) 4294967296 = q"
    by (simp add: fdiv_def q_def)
  have "\<bar>uint f * 125\<bar> < 9007199254740992" using uint32_bounds [of f] by linarith
  then have "\<bar>uint f * 125\<bar> < 2 ^ 53" by simp
  then have a': "fl (of_int (uint f * 125) * 2 powi (- 29)) = of_int (uint f * 125) * 2 powi (- 29)"
    by (rule fl_exact) simp
  have b': "of_int (uint f * 125) * 2 powi (- 29) = q * 1000"
    by (simp add: q_def power_int_minus field_simps)
  from a' have "fl (q * 1000) = q * 1000" by (simp only: b')
  then have "fmul (fdiv (of_nat (unat f)) 4294967296) 1000 = q * 1000"
    by (simp only: fmul_def d)
  then show ?thesis by (simp add: q_def)
qed

lemma milliseconds_range:
  fixes f :: "32 word"
  shows "0 \<le> (of_int (uint f) * 1000 / 4294967296 :: rat)"
    and "(of_int (uint f) * 1000 / 4294967296 :: rat) < 1000"
proof -
  define r :: rat where "r = of_int (uint f)"
  have "(of_int 0 :: rat) \<le> of_int (uint f)" "(of_int (uint f) :: rat) < of_int 4294967296"
    using uint32_bounds [of f] by (simp_all only: of_int_le_iff of_int_less_iff)
  then have r: "0 \<le> r" "r < 4294967296" by (simp_all add: r_def)
  then show "0 \<le> (of_int (uint f) * 1000 / 4294967296 :: rat)"
    and "(of_int (uint f) * 1000 / 4294967296 :: rat) < 1000"
    unfolding r_def [symmetric] by simp_all
qed

lemma timestamp_sum_bound:
  fixes s f :: "32 word"
  shows "\<bar>fadd (fmul (of_int (uint s - 2208988800)) 1000)
              (of_int (uint f) * 1000 / 4294967296)\<bar> \<le> 8796093022208"
proof -
  define a :: int where "a = (uint s - 2208988800) * 1000"
  define b :: rat where "b = of_int (uint f) * 1000 / 4294967296"
  have a: "- 2208988800000 \<le> a" "a < 2085978496000"
    using uint32_bounds [of s] by (simp_all add: a_def)
  then have "\<bar>a\<bar> < 9007199254740992" by linarith
  then have "\<bar>a\<bar> < 2 ^ 53" by simp
  then have "fl (of_int a) = of_int a" by (rule fl_of_int)
  then have m: "fmul (of_int (uint s - 2208988800)) 1000 = of_int a"
    by (simp add: fmul_def a_def)
  have b: "0 \<le> b" "b < 1000" unfolding b_def by (rule milliseconds_range)+
  from a have "(of_int (- 2208988800000) :: rat) \<le> of_int a" "(of_int a :: rat) < of_int 2085978496000"
    by (simp_all only: of_int_le_iff of_int_less_iff)
  with b have "\<bar>of_int a + b\<bar> \<le> 8796093022208" by simp
  then have "\<bar>of_int a + b\<bar> \<le> 2 powi 43" by simp
  then have "\<bar>fl (of_int a + b)\<bar> \<le> 2 powi 43" by (rule fl_abs_le) simp
  then have "\<bar>fadd (of_int a) b\<bar> \<le> 8796093022208" by (simp add: fadd_def)
  then show ?thesis by (simp only: m flip: b_def)
qed

lemma TimeClip_date:
  fixes s f :: "32 word"
  shows "\<exists>d. TimeClip (fadd (fmul (of_int (uint s - 2208988800)) 1000)
                          (of_int (uint f) * 1000 / 4294967296)) = Some d"
  using timestamp_sum_bound [of s f] by (simp add: TimeClip_def)

lemma parseNTPTimestamp_InrD:
  assumes "parseNTPTimestamp rt buf offset = Inr ts"
  shows "readUInt32BE buf offset = Inr (RawNTPTimestamp.seconds (raw ts))"
    and "readUInt32BE buf (offset + 4) = Inr (fraction (raw ts))"
    and "UnixTime.seconds (unix ts) = fsub (of_nat (unat (RawNTPTimestamp.seconds (raw ts)))) NTP_EPOCH_OFFSET"
    and "milliseconds (unix ts) = fmul (fdiv (of_nat (unat (fraction (raw ts)))) 4294967296) 1000"
    and "TimeClip (fadd (fmul (UnixTime.seconds (unix ts)) 1000) (milliseconds (unix ts))) = Some (date ts)"
    and "timestamp ts = date ts"
    and "iso ts = toISOString rt (date ts)"
    and "local ts = dateToString rt (date ts)"
  using assms
  by (auto simp add: parseNTPTimestamp_def Let_def split: sum.splits option.splits)

lemma parseNTPTimestamp_total:
  assumes "offset + 8 \<le> length buf"
  shows "\<exists>ts. parseNTPTimestamp rt buf offset = Inr ts"
proof -
  from assms obtain s where s: "readUInt32BE buf offset = Inr s"
    using readUInt32BE_Inr [of offset buf] by auto
  from assms obtain f where f: "readUInt32BE buf (offset + 4) = Inr f"
    using readUInt32BE_Inr [of "offset + 4" buf] by auto
  obtain d where "TimeClip (fadd (fmul (of_int (uint s - 2208988800)) 1000)
                          (of_int (uint f) * 1000 / 4294967296)) = Some d"
    using TimeClip_date [of s f] by blast
  then have "TimeClip (fadd (fmul (fsub (of_nat (unat s)) NTP_EPOCH_OFFSET) 1000)
               (fmul (fdiv (of_nat (unat f)) 4294967296) 1000)) = Some d"
    by (simp only: unixSeconds_exact milliseconds_exact)
  then show ?thesis
    by (simp add: parseNTPTimestamp_def s f Let_def)
qed

lemma parsePacket_InrD:
  assumes "parsePacket rt buf = Inr p"
  shows "48 \<le> length buf"
    and "parseNTPTimestamp rt buf 16 = Inr (reference (timestamps p))"
    and "parseNTPTimestamp rt buf 24 = Inr (originate (timestamps p))"
    and "parseNTPTimestamp rt buf 32 = Inr (receive (timestamps p))"
    and "parseNTPTimestamp rt buf 40 = Inr (transmit (timestamps p))"
    and "readUInt32BE buf 4 = Inr (rootDelay (header p))"
    and "readUInt32BE buf 8 = Inr (rootDispersion (header p))"
    and "\<exists>refid. readUInt32BE buf 12 = Inr refid
           \<and> referenceId (header p) = formatReferenceId refid (buf ! 1)"
    and "stratum (header p) = buf ! 1"
    and "ParsedNTPPacket.roundTripDelay p = None"
    and "ParsedNTPPacket.clockOffset p = None"
  using assms
  by (auto simp add: parsePacket_def Let_def split: if_splits sum.splits)

lemma parsePacket_total:
  assumes "48 \<le> length buf"
  shows "\<exists>p. parsePacket rt buf = Inr p"
proof -
  obtain t1 where t1: "parseNTPTimestamp rt buf 16 = Inr t1"
    using parseNTPTimestamp_total [of 16 buf rt] assms by auto
  obtain t2 where t2: "parseNTPTimestamp rt buf 24 = Inr t2"
    using parseNTPTimestamp_total [of 24 buf rt] assms by auto
  obtain t3 where t3: "parseNTPTimestamp rt buf 32 = Inr t3"
    using parseNTPTimestamp_total [of 32 buf rt] assms by auto
  obtain t4 where t4: "parseNTPTimestamp rt buf 40 = Inr t4"
    using parseNTPTimestamp_total [of 40 buf rt] assms by auto
  obtain w1 where w1: "readUInt32BE buf 4 = Inr w1"
    using readUInt32BE_Inr [of 4 buf] assms by auto
  obtain w2 where w2: "readUInt32BE buf 8 = Inr w2"
    using readUInt32BE_Inr [of 8 buf] assms by auto
  obtain w3 where w3: "readUInt32BE buf 12 = Inr w3"
    using readUInt32BE_Inr [of 12 buf] assms by auto
  show ?thesis
    using assms by (simp add: parsePacket_def Let_def t1 t2 t3 t4 w1 w2 w3)
qed

lemma readUInt32BE_take:
  assumes "offset + 4 \<le> n" "n \<le> length buf"
  shows "readUInt32BE (take n buf) offset = readUInt32BE buf offset"
  using assms by (simp add: readUInt32BE_def)

lemma parseNTPTimestamp_take:
  assumes "offset + 8 \<le> n" "n \<le> length buf"
  shows "parseNTPTimestamp rt (take n buf) offset = parseNTPTimestamp rt buf offset"
  using assms by (simp add: parseNTPTimestamp_def readUInt32BE_take cong: sum.case_cong)

lemma parsePacket_take:
  assumes "48 \<le> length buf"
  shows "parsePacket rt (take 48 buf) = parsePacket rt buf"
  using assms
  by (simp add: parsePacket_def parseNTPTimestamp_take readUInt32BE_take cong: sum.case_cong)

lemma take8_drop:
  "take 8 (drop offset buf) = take 4 (drop offset buf) @ take 4 (drop (offset + 4) buf)"
  using take_add [of 4 4 "drop offset buf"] by (simp add: add.commute)

lemma timestamp_bytes:
  assumes "parseNTPTimestamp rt buf offset = Inr ts"
  shows "writeUInt32BE (RawNTPTimestamp.seconds (raw ts)) @ writeUInt32BE (fraction (raw ts))
         = take 8 (drop offset buf)"
  using parseNTPTimestamp_InrD(1,2) [OF assms]
  by (simp only: take8_drop writeUInt32BE_readUInt32BE)

lemma sample_packet_length: "length sample_packet = 48"
  by (simp add: sample_packet_def)

lemma deny_packet_length: "length deny_packet = 48"
  by (simp add: deny_packet_def)

lemma TimeClip_bound:
  assumes "TimeClip v = Some d" and "\<bar>v\<bar> \<le> of_int B"
  shows "\<bar>d\<bar> \<le> B"
proof (cases "0 \<le> v")
  case True
  with assms(1) have d: "d = \<lfloor>v\<rfloor>" by (simp add: TimeClip_def split: if_splits)
  from True have "0 \<le> \<lfloor>v\<rfloor>" by simp
  moreover from assms(2) True have "\<lfloor>v\<rfloor> \<le> B" by (simp add: floor_le_iff)
  ultimately show ?thesis by (simp add: d)
next
  case False
  with assms(1) have d: "d = \<lceil>v\<rceil>" by (simp add: TimeClip_def split: if_splits)
  from False have "\<lceil>v\<rceil> \<le> 0" by (simp add: ceiling_le_iff)
  moreover from assms(2) False have "of_int (- B) \<le> v" by simp
  then have "- B \<le> \<lceil>v\<rceil>" by (simp only: le_ceiling_iff)
  ultimately show ?thesis by (simp add: d)
qed

lemma parseNTPTimestamp_date_bound:
  assumes "parseNTPTimestamp rt buf offset = Inr ts"
  shows "\<bar>date ts\<bar> \<le> 8796093022208"
proof -
  note d = parseNTPTimestamp_InrD [OF assms]
  have "TimeClip (fadd (fmul (of_int (uint (RawNTPTimestamp.seconds (raw ts)) - 2208988800)) 1000)
          (of_int (uint (fraction (raw ts))) * 1000 / 4294967296)) = Some (date ts)"
    using d(5) by (simp only: d(3) d(4) unixSeconds_exact milliseconds_exact)
  then show ?thesis
    using timestamp_sum_bound [of "RawNTPTimestamp.seconds (raw ts)" "fraction (raw ts)"]
    by (intro TimeClip_bound [where B = 8796093022208]) simp_all
qed

section \<open>Facts about hexadecimal digits\<close>

lemma upper_digits:
  "map (\<lambda>d. toUpperCase_char (digitChar d)) [0, 1, 2, 3, 4, 5, 6, 7, 8, 9, 10, 11, 12, 13, 14, 15]
   = ''0123456789ABCDEF''"
  by (simp add: digitChar_def toUpperCase_char_def)

lemma upper_digit_values:
  "map hexDigitValue ''0123456789ABCDEF'' = [0, 1, 2, 3, 4, 5, 6, 7, 8, 9, 10, 11, 12, 13, 14, 15]"
  by (simp add: hexDigitValue_def)

lemma nth_digits:
  assumes "d < (16::nat)"
  shows "[0, 1, 2, 3, 4, 5, 6, 7, 8, 9, 10, 11, 12, 13, 14, 15] ! d = d"
proof -
  from assms have "d = 0 \<or> d = 1 \<or> d = 2 \<or> d = 3 \<or> d = 4 \<or> d = 5 \<or> d = 6 \<or> d = 7
      \<or> d = 8 \<or> d = 9 \<or> d = 10 \<or> d = 11 \<or> d = 12 \<or> d = 13 \<or> d = 14 \<or> d = 15"
    by (simp add: numeral_eq_Suc less_Suc_eq)
  then show ?thesis by (elim disjE) simp_all
qed

lemma hex_digit_upper:
  assumes "d < 16"
  shows "toUpperCase_char (digitChar d) \<in> set ''0123456789ABCDEF''"
    and "hexDigitValue (toUpperCase_char (digitChar d)) = d"
proof -
  let ?L = "[0, 1, 2, 3, 4, 5, 6, 7, 8, 9, 10, 11, 12, 13, 14, 15] :: nat list"
  let ?U = "''0123456789ABCDEF''"
  have d: "d < length ?L" using assms by simp
  have "toUpperCase_char (digitChar (?L ! d)) = map (\<lambda>d. toUpperCase_char (digitChar d)) ?L ! d"
    by (rule nth_map [OF d, symmetric])
  then have u: "toUpperCase_char (digitChar d) = ?U ! d"
    by (simp only: nth_digits [OF assms] upper_digits)
  have dU: "d < length ?U" using assms by simp
  then have "?U ! d \<in> set ?U" by (rule nth_mem)
  then show "toUpperCase_char (digitChar d) \<in> set ?U" by (simp only: u)
  have "hexDigitValue (?U ! d) = map hexDigitValue ?U ! d"
    by (rule nth_map [OF dU, symmetric])
  then show "hexDigitValue (toUpperCase_char (digitChar d)) = d"
    by (simp only: u upper_digit_values nth_digits [OF assms])
qed

lemma toStringRadix_16_length:
  "0 < k \<Longrightarrow> n < 16 ^ k \<Longrightarrow> length (toStringRadix 16 n) \<le> k"
proof (induction k arbitrary: n)
  case 0
  then show ?case by simp
next
  case (Suc k)
  show ?case
  proof (cases "n < 16")
    case True
    then show ?thesis by (simp add: toStringRadix.simps [of 16 n])
  next
    case False
    with Suc.prems have k: "0 < k" by (cases k) simp_all
    from Suc.prems have "n div 16 < 16 ^ k" by (simp add: less_mult_imp_div_less mult.commute)
    with k have "length (toStringRadix 16 (n div 16)) \<le> k" by (rule Suc.IH)
    with False show ?thesis by (simp add: toStringRadix.simps [of 16 n])
  qed
qed

lemma toStringRadix_16_upper:
  "set (toUpperCase (toStringRadix 16 n)) \<subseteq> set ''0123456789ABCDEF''
   \<and> hexValue (toUpperCase (toStringRadix 16 n)) = n"
proof (induction n rule: less_induct)
  case (less n)
  show ?case
  proof (cases "n < 16")
    case True
    with hex_digit_upper [of n] show ?thesis
      by (simp add: toStringRadix.simps [of 16 n] toUpperCase_def hexValue_def)
  next
    case False
    then have "n div 16 < n" by simp
    from less.IH [OF this] hex_digit_upper [of "n mod 16"] False show ?thesis
      by (simp add: toStringRadix.simps [of 16 n] toUpperCase_def hexValue_def)
  qed
qed

lemma hexValue_padStart: "hexValue (padStart k (CHR ''0'') s) = hexValue s"
proof -
  have "foldl (\<lambda>v c. 16 * v + hexDigitValue c) 0 (replicate j (CHR ''0'')) = 0" for j
    by (induction j) (simp_all add: hexDigitValue_def)
  then show ?thesis by (simp add: hexValue_def padStart_def)
qed

lemma formatReferenceId_hex:
  assumes "strat \<noteq> 0" "strat \<noteq> 1"
  shows "\<exists>ds. formatReferenceId ident strat = ''0x'' @ ds \<and> length ds = 8
           \<and> set ds \<subseteq> set ''0123456789ABCDEF'' \<and> hexValue ds = unat ident"
proof -
  let ?h = "toUpperCase (toStringRadix 16 (unat ident))"
  let ?ds = "padStart 8 (CHR ''0'') ?h"
  have "unat ident < 16 ^ 8" using unsigned_less [of ident, where ?'a = nat] by simp
  then have "length (toStringRadix 16 (unat ident)) \<le> 8"
    by (intro toStringRadix_16_length) simp_all
  then have len: "length ?ds = 8" by (simp add: padStart_def toUpperCase_def)
  have "set ?ds \<subseteq> set ''0'' \<union> set ?h" by (auto simp add: padStart_def)
  moreover have "set ''0'' \<subseteq> set ''0123456789ABCDEF''" by simp
  moreover have "set ?h \<subseteq> set ''0123456789ABCDEF''"
    using toStringRadix_16_upper [of "unat ident"] by (rule conjunct1)
  ultimately have chars: "set ?ds \<subseteq> set ''0123456789ABCDEF''" by (rule subset_trans [OF _ Un_least])
  have val: "hexValue ?ds = unat ident"
    using toStringRadix_16_upper [of "unat ident"] by (simp only: hexValue_padStart)
  from assms have "formatReferenceId ident strat = ''0x'' @ ?ds"
    by (simp add: formatReferenceId_def)
  with len chars val show ?thesis by blast
qed

section \<open>The worked example of the metrics\<close>

lemma worked_t1: "fdiv 1000000 1000 = 1000"
  unfolding fdiv_def by code_simp

lemma worked_t4: "fdiv 1000250 1000 = 4001 / 4"
  unfolding fdiv_def by code_simp

lemma worked_t2: "fadd 1000 (fdiv 100 1000) = 8796972631510221 / 8796093022208"
  unfolding fadd_def fdiv_def by code_simp

lemma worked_delay:
  "fsub (fsub (4001 / 4) 1000) (fsub (8796972631510221 / 8796093022208) (8796972631510221 / 8796093022208)) = 1 / 4"
  unfolding fsub_def by code_simp

lemma worked_offset:
  "fdiv (fadd (fsub (8796972631510221 / 8796093022208) 1000) (fsub (8796972631510221 / 8796093022208) (4001 / 4))) 2
   = - 219902325555 / 8796093022208"
  unfolding fdiv_def fadd_def fsub_def by code_simp

lemma worked_offset_ms:
  "fmul (- (219902325555 / 8796093022208)) 1000 = - (27487790694375 / 1099511627776)"
  unfolding fmul_def by code_simp

lemma worked_metrics:
  assumes "UnixTime.seconds (unix (receive (timestamps p))) = 1000"
    and "milliseconds (unix (receive (timestamps p))) = 100"
    and "UnixTime.seconds (unix (transmit (timestamps p))) = 1000"
    and "milliseconds (unix (transmit (timestamps p))) = 100"
  shows "Metrics.roundTripDelay (calculateMetrics p 1000000 1000250) = 1 / 4"
    and "Metrics.clockOffset (calculateMetrics p 1000000 1000250) = - 219902325555 / 8796093022208"
    and "clockOffsetMs (calculateMetrics p 1000000 1000250) = - 27487790694375 / 1099511627776"
proof -
  show "Metrics.roundTripDelay (calculateMetrics p 1000000 1000250) = 1 / 4"
    by (simp add: calculateMetrics_def Let_def assms worked_t1 worked_t2 worked_t4 worked_delay)
  show "Metrics.clockOffset (calculateMetrics p 1000000 1000250) = - 219902325555 / 8796093022208"
    by (simp add: calculateMetrics_def Let_def assms worked_t1 worked_t2 worked_t4 worked_offset)
  show "clockOffsetMs (calculateMetrics p 1000000 1000250) = - 27487790694375 / 1099511627776"
    by (simp add: calculateMetrics_def Let_def assms worked_t1 worked_t2 worked_t4 worked_offset
        worked_offset_ms)
qed

section \<open>Facts about the fallback loop\<close>

lemma queryServer_InrD:
  assumes "queryServer rt c server ev = Inr result"
  shows "\<exists>buf address recv now. ev = Message buf address recv now
           \<and> parsePacket rt buf = Inr (parsed result)
           \<and> buffer result = buf \<and> clientReceiveTime result = recv"
    and "usedServer result = Some server"
  using assms
  by (auto simp add: queryServer_def split: event.splits sum.splits)

lemma query_loop_recording:
  assumes "query_loop rt c (recording net) servers rest lastError (w, trace0) = (res, (w', trace))"
  shows "query_loop rt c net servers rest lastError w = (res, w')
    \<and> (\<exists>trace1. trace = trace0 @ trace1 \<and>
      (case res of
         Inr result \<Rightarrow>
           (\<exists>fails server ev more. trace1 = fails @ [(server, ev)] \<and> rest = map fst trace1 @ more
              \<and> list_all (\<lambda>(s, ev). isl (queryServer rt c s ev)) fails
              \<and> queryServer rt c server ev = Inr result)
       | Inl e \<Rightarrow>
           map fst trace1 = rest
           \<and> list_all (\<lambda>(s, ev). isl (queryServer rt c s ev)) trace1
           \<and> e = Error (''NTP query failed for all servers ('' @ join '', '' servers @ ''): ''
                 @ (case (if trace1 = [] then lastError
                          else Some (projl (queryServer rt c (fst (last trace1)) (snd (last trace1))))) of
                      None \<Rightarrow> ''undefined''
                    | Some e' \<Rightarrow> message e'))))"
  using assms
proof (induction rest arbitrary: lastError w trace0)
  case Nil
  then show ?case by auto
next
  case (Cons s ss)
  obtain ev w1 where n: "net w s (port c) = (ev, w1)" by (cases "net w s (port c)")
  then have r: "recording net (w, trace0) s (port c) = (ev, (w1, trace0 @ [(s, ev)]))"
    by (simp add: recording_def)
  show ?case
  proof (cases "queryServer rt c s ev")
    case (Inr result)
    with Cons.prems n r have "res = Inr result" "w' = w1" "trace = trace0 @ [(s, ev)]"
      by simp_all
    with Inr n show ?thesis by simp
  next
    case (Inl e0)
    with Cons.prems r
    have rec: "query_loop rt c (recording net) servers ss (Some e0) (w1, trace0 @ [(s, ev)])
                 = (res, (w', trace))"
      by simp
    from Cons.IH [OF rec] obtain trace1
      where plain: "query_loop rt c net servers ss (Some e0) w1 = (res, w')"
        and tr: "trace = (trace0 @ [(s, ev)]) @ trace1"
        and body: "(case res of
         Inr result \<Rightarrow>
           (\<exists>fails server ev more. trace1 = fails @ [(server, ev)] \<and> ss = map fst trace1 @ more
              \<and> list_all (\<lambda>(s, ev). isl (queryServer rt c s ev)) fails
              \<and> queryServer rt c server ev = Inr result)
       | Inl e \<Rightarrow>
           map fst trace1 = ss
           \<and> list_all (\<lambda>(s, ev). isl (queryServer rt c s ev)) trace1
           \<and> e = Error (''NTP query failed for all servers ('' @ join '', '' servers @ ''): ''
                 @ (case (if trace1 = [] then Some e0
                          else Some (projl (queryServer rt c (fst (last trace1)) (snd (last trace1))))) of
                      None \<Rightarrow> ''undefined''
                    | Some e' \<Rightarrow> message e')))"
      by blast
    have first: "query_loop rt c net servers (s # ss) lastError w = (res, w')"
      using n Inl plain by simp
    have l: "trace = trace0 @ ((s, ev) # trace1)" using tr by simp
    show ?thesis
    proof (cases res)
      case (Inr result)
      with body obtain fails server ev' more
        where "trace1 = fails @ [(server, ev')]" "ss = map fst trace1 @ more"
          "list_all (\<lambda>(s, ev). isl (queryServer rt c s ev)) fails"
          "queryServer rt c server ev' = Inr result"
        by auto
      with Inl have "(s, ev) # trace1 = ((s, ev) # fails) @ [(server, ev')]
          \<and> s # ss = map fst ((s, ev) # trace1) @ more
          \<and> list_all (\<lambda>(s, ev). isl (queryServer rt c s ev)) ((s, ev) # fails)
          \<and> queryServer rt c server ev' = Inr result"
        by simp
      then have "\<exists>fails server ev' more. (s, ev) # trace1 = fails @ [(server, ev')]
          \<and> s # ss = map fst ((s, ev) # trace1) @ more
          \<and> list_all (\<lambda>(s, ev). isl (queryServer rt c s ev)) fails
          \<and> queryServer rt c server ev' = Inr result"
        by blast
      with first l Inr show ?thesis by auto
    next
      case (Inl e)
      with body have b: "map fst trace1 = ss"
        "list_all (\<lambda>(s, ev). isl (queryServer rt c s ev)) trace1"
        "e = Error (''NTP query failed for all servers ('' @ join '', '' servers @ ''): ''
                 @ (case (if trace1 = [] then Some e0
                          else Some (projl (queryServer rt c (fst (last trace1)) (snd (last trace1))))) of
                      None \<Rightarrow> ''undefined''
                    | Some e' \<Rightarrow> message e'))"
        by simp_all
      from b(3) \<open>queryServer rt c s ev = Inl e0\<close>
      have "e = Error (''NTP query failed for all servers ('' @ join '', '' servers @ ''): ''
                 @ message (projl (queryServer rt c (fst (last ((s, ev) # trace1)))
                                     (snd (last ((s, ev) # trace1))))))"
        by (cases "trace1 = []") simp_all
      with b(1,2) \<open>queryServer rt c s ev = Inl e0\<close> first l Inl show ?thesis by auto
    qed
  qed
qed

lemma timeout_message:
  "queryServer rt default_client server TimerExpired
   = Inl (Error (''NTP request timeout after 5000ms to '' @ server))"
  by (simp add: queryServer_def default_client_def new_NTPClient_def toStringRadix.simps
      digitChar_def)

lemma default_servers:
  "host default_client = ''time.hixbe.com''"
  "fallbackServers default_client = [''time.google.com'', ''pool.ntp.org'']"
  "port default_client = 123"
  by (simp_all add: default_client_def new_NTPClient_def)

lemma query_loop_parsed:
  assumes "query_loop rt c net servers rest lastError w = (Inr result, w')"
  shows "\<exists>buf. parsePacket rt buf = Inr (parsed result)"
  using assms
proof (induction rest arbitrary: lastError w)
  case Nil
  then show ?case by simp
next
  case (Cons s ss)
  obtain ev w1 where n: "net w s (port c) = (ev, w1)" by (cases "net w s (port c)")
  show ?case
  proof (cases "queryServer rt c s ev")
    case (Inr r)
    with Cons.prems n have "r = result" by simp
    with queryServer_InrD(1) [OF Inr] show ?thesis by blast
  next
    case (Inl e0)
    with Cons.prems n have "query_loop rt c net servers ss (Some e0) w1 = (Inr result, w')"
      by simp
    then show ?thesis by (rule Cons.IH)
  qed
qed

section \<open>Facts about the two-point offset\<close>

lemma getOffset_exact:
  assumes "\<bar>d\<bar> \<le> 8796093022208" and "\<bar>t\<bar> \<le> 8640000000000000"
  shows "fsub (of_int d) (of_int t) = of_int (d - t)"
proof -
  from assms have "\<bar>d - t\<bar> < 9007199254740992" by linarith
  then have "\<bar>d - t\<bar> < 2 ^ 53" by simp
  then have "fl (of_int (d - t)) = of_int (d - t)" by (rule fl_of_int)
  then show ?thesis by (simp add: fsub_def)
qed

lemma sample_transmit_sum:
  "fadd (fmul 1767145857 1000) (429496730 * 1000 / 4294967296) = 1767145857100"
  unfolding fadd_def fmul_def by code_simp

lemma sample_transmit_date:
  assumes "parsePacket rt sample_packet = Inr p"
  shows "date (transmit (timestamps p)) = 1767145857100"
proof -
  note t = parsePacket_InrD(5) [OF assms]
  note d = parseNTPTimestamp_InrD [OF t]
  have "readUInt32BE sample_packet 40 = Inr 0xECFF0001"
    by (simp add: readUInt32BE_def sample_packet_def)
  with d(1) have s: "RawNTPTimestamp.seconds (raw (transmit (timestamps p))) = 0xECFF0001" by simp
  have "readUInt32BE sample_packet (40 + 4) = Inr 0x1999999A"
    by (simp add: readUInt32BE_def sample_packet_def)
  with d(2) have f: "fraction (raw (transmit (timestamps p))) = 0x1999999A" by simp
  have u: "UnixTime.seconds (unix (transmit (timestamps p))) = 1767145857"
    by (simp only: d(3) unixSeconds_exact s) simp
  have m: "milliseconds (unix (transmit (timestamps p))) = 429496730 * 1000 / 4294967296"
    by (simp only: d(4) milliseconds_exact f) simp
  from d(5) have "TimeClip 1767145857100 = Some (date (transmit (timestamps p)))"
    by (simp only: u m sample_transmit_sum)
  then show ?thesis by (simp add: TimeClip_def)
qed

section \<open>The claims\<close>

text \<open>
  Claim C1, as stated, fails in its worked example: with T1 = 1000.000 s,
  T2 = T3 = 1000.100 s and T4 = 1000.250 s the two formulas give a delay of 0.250 s and an
  offset of about -0.025 s, not 0.150 s and 0.075 s.
\<close>

theorem calculateMetrics_example_counterexample:
  "UnixTime.seconds (unix (receive (timestamps worked_example))) = 1000
   \<and> milliseconds (unix (receive (timestamps worked_example))) = 100
   \<and> UnixTime.seconds (unix (transmit (timestamps worked_example))) = 1000
   \<and> milliseconds (unix (transmit (timestamps worked_example))) = 100
   \<and> Metrics.roundTripDelay (calculateMetrics worked_example 1000000 1000250) = 1 / 4
   \<and> Metrics.roundTripDelay (calculateMetrics worked_example 1000000 1000250) \<noteq> 150 / 1000
   \<and> Metrics.clockOffset (calculateMetrics worked_example 1000000 1000250) < 0
   \<and> 9 / 100 < \<bar>Metrics.clockOffset (calculateMetrics worked_example 1000000 1000250) - 75 / 1000\<bar>"
proof -
  have h: "UnixTime.seconds (unix (receive (timestamps worked_example))) = 1000"
    "milliseconds (unix (receive (timestamps worked_example))) = 100"
    "UnixTime.seconds (unix (transmit (timestamps worked_example))) = 1000"
    "milliseconds (unix (transmit (timestamps worked_example))) = 100"
    by (simp_all add: worked_example_def worked_timestamp_def)
  note m = worked_metrics(1,2) [OF h]
  show ?thesis by (simp add: h m)
qed

text \<open>
  Claim C1, amended. For every parsed packet and every pair of clock readings T1
  (\<^verbatim>\<open>clientOriginateTime\<close>) and T4 (\<^verbatim>\<open>clientReceiveTime\<close>), \<open>calculateMetrics\<close> returns
  \<open>roundTripDelay = (T4 - T1) - (T3 - T2)\<close> and \<open>clockOffset = ((T2 - T1) + (T3 - T4)) / 2\<close>,
  every operation being the one on doubles, where T1 and T4 are the readings divided by
  1000 and T2 and T3 are \<^verbatim>\<open>unix.seconds + unix.milliseconds / 1000\<close> of the receive and
  transmit timestamps; the two millisecond results are these values times 1000. For
  T1 = 1000.000 s, T2 = T3 = 1000.100 s, T4 = 1000.250 s it yields a delay of exactly
  0.250 s and an offset of -0.025 s up to rounding (within \<open>1e-12\<close>).
\<close>

theorem calculateMetrics_formulas:
  "(let t1 = fdiv (of_int originateTime) 1000;
        t2 = fadd (UnixTime.seconds (unix (receive (timestamps p))))
                  (fdiv (milliseconds (unix (receive (timestamps p)))) 1000);
        t3 = fadd (UnixTime.seconds (unix (transmit (timestamps p))))
                  (fdiv (milliseconds (unix (transmit (timestamps p)))) 1000);
        t4 = fdiv (of_int receiveTime) 1000;
        m = calculateMetrics p originateTime receiveTime
    in Metrics.roundTripDelay m = fsub (fsub t4 t1) (fsub t3 t2)
       \<and> Metrics.clockOffset m = fdiv (fadd (fsub t2 t1) (fsub t3 t4)) 2
       \<and> roundTripDelayMs m = fmul (Metrics.roundTripDelay m) 1000
       \<and> clockOffsetMs m = fmul (Metrics.clockOffset m) 1000)
   \<and> (UnixTime.seconds (unix (receive (timestamps p))) = 1000
        \<and> milliseconds (unix (receive (timestamps p))) = 100
        \<and> UnixTime.seconds (unix (transmit (timestamps p))) = 1000
        \<and> milliseconds (unix (transmit (timestamps p))) = 100 \<longrightarrow>
        Metrics.roundTripDelay (calculateMetrics p 1000000 1000250) = 250 / 1000
        \<and> \<bar>Metrics.clockOffset (calculateMetrics p 1000000 1000250) - (- 25 / 1000)\<bar>
              < 1 / 10 ^ 12)"
proof (intro conjI impI)
  show "let t1 = fdiv (of_int originateTime) 1000;
        t2 = fadd (UnixTime.seconds (unix (receive (timestamps p))))
                  (fdiv (milliseconds (unix (receive (timestamps p)))) 1000);
        t3 = fadd (UnixTime.seconds (unix (transmit (timestamps p))))
                  (fdiv (milliseconds (unix (transmit (timestamps p)))) 1000);
        t4 = fdiv (of_int receiveTime) 1000;
        m = calculateMetrics p originateTime receiveTime
    in Metrics.roundTripDelay m = fsub (fsub t4 t1) (fsub t3 t2)
       \<and> Metrics.clockOffset m = fdiv (fadd (fsub t2 t1) (fsub t3 t4)) 2
       \<and> roundTripDelayMs m = fmul (Metrics.roundTripDelay m) 1000
       \<and> clockOffsetMs m = fmul (Metrics.clockOffset m) 1000"
    by (simp add: calculateMetrics_def Let_def)
next
  assume a: "UnixTime.seconds (unix (receive (timestamps p))) = 1000
        \<and> milliseconds (unix (receive (timestamps p))) = 100
        \<and> UnixTime.seconds (unix (transmit (timestamps p))) = 1000
        \<and> milliseconds (unix (transmit (timestamps p))) = 100"
  then have h: "UnixTime.seconds (unix (receive (timestamps p))) = 1000"
    "milliseconds (unix (receive (timestamps p))) = 100"
    "UnixTime.seconds (unix (transmit (timestamps p))) = 1000"
    "milliseconds (unix (transmit (timestamps p))) = 100" by simp_all
  note m = worked_metrics(1,2) [OF h]
  show "Metrics.roundTripDelay (calculateMetrics p 1000000 1000250) = 250 / 1000"
    by (simp add: m)
  show "\<bar>Metrics.clockOffset (calculateMetrics p 1000000 1000250) - (- 25 / 1000)\<bar> < 1 / 10 ^ 12"
    by (simp add: m)
qed

theorem calculateMetrics_formulas_witness:
  "UnixTime.seconds (unix (receive (timestamps worked_example))) = 1000
   \<and> milliseconds (unix (receive (timestamps worked_example))) = 100
   \<and> UnixTime.seconds (unix (transmit (timestamps worked_example))) = 1000
   \<and> milliseconds (unix (transmit (timestamps worked_example))) = 100
   \<and> Metrics.roundTripDelay (calculateMetrics worked_example 1000000 1000250) = 250 / 1000
   \<and> \<bar>Metrics.clockOffset (calculateMetrics worked_example 1000000 1000250) - (- 25 / 1000)\<bar>
         < 1 / 10 ^ 12"
proof -
  have h: "UnixTime.seconds (unix (receive (timestamps worked_example))) = 1000
        \<and> milliseconds (unix (receive (timestamps worked_example))) = 100
        \<and> UnixTime.seconds (unix (transmit (timestamps worked_example))) = 1000
        \<and> milliseconds (unix (transmit (timestamps worked_example))) = 100"
    by (simp add: worked_example_def worked_timestamp_def)
  from calculateMetrics_formulas [of 0 worked_example 0] h show ?thesis by blast
qed

text \<open>
  Claim C2. A buffer of 47 bytes or fewer makes \<open>parsePacket\<close> fail with the error
  \<^verbatim>\<open>Invalid NTP packet: minimum 48 bytes required\<close> (the specification's MalformedPacket)
  and with no other error; on every buffer of 48 bytes or more the length check passes
  and \<open>parsePacket\<close> returns a packet, so that neither this error nor the RangeError of a
  field reader or of \<^verbatim>\<open>toISOString\<close> is raised.
\<close>

theorem parsePacket_length_check:
  "(\<forall>buf. length buf \<le> 47 \<longrightarrow>
       parsePacket rt buf = Inl (Error ''Invalid NTP packet: minimum 48 bytes required''))
   \<and> (\<forall>buf. 48 \<le> length buf \<longrightarrow> (\<exists>p. parsePacket rt buf = Inr p))"
  by (simp add: parsePacket_total) (simp add: parsePacket_def)

theorem parsePacket_length_check_witness:
  "length (take 47 sample_packet) \<le> 47
   \<and> parsePacket plain_runtime (take 47 sample_packet)
       = Inl (Error ''Invalid NTP packet: minimum 48 bytes required'')
   \<and> 48 \<le> length sample_packet
   \<and> (\<exists>p. parsePacket plain_runtime sample_packet = Inr p)"
proof -
  have short: "length (take 47 sample_packet) \<le> 47" by simp
  have long: "48 \<le> length sample_packet" by (simp add: sample_packet_length)
  from parsePacket_length_check [of plain_runtime] short long show ?thesis by blast
qed

text \<open>
  Claim C3. \<open>query\<close> attempts the hosts strictly in order, the configured primary host
  first and then each fallback host in list order: the hosts of the recorded attempts are
  a prefix of that list. It stops at the first attempt that succeeds (every attempt
  before the last recorded one failed) and returns its result, whose \<^verbatim>\<open>usedServer\<close> is
  the host that answered, a member of the list. If every host fails, all of them were
  attempted and \<open>query\<close> fails with the error
  \<^verbatim>\<open>NTP query failed for all servers (<hosts joined by ', '>): <message of the last error>\<close>
  (the specification's AllServersUnreachable), which carries the full list of hosts and
  the last underlying error. Recording does not change the result.
\<close>

theorem query_fallback:
  assumes "query rt c (recording net) (w, []) = (res, (w', trace))"
  shows "query rt c net w = (res, w')
    \<and> (case res of
         Inr result \<Rightarrow>
           (\<exists>fails server ev. trace = fails @ [(server, ev)]
              \<and> map fst trace = take (length trace) (host c # fallbackServers c)
              \<and> list_all (\<lambda>(s, ev). isl (queryServer rt c s ev)) fails
              \<and> queryServer rt c server ev = Inr result
              \<and> usedServer result = Some server
              \<and> server \<in> set (host c # fallbackServers c))
       | Inl e \<Rightarrow>
           map fst trace = host c # fallbackServers c
           \<and> list_all (\<lambda>(s, ev). isl (queryServer rt c s ev)) trace
           \<and> e = Error (''NTP query failed for all servers (''
                         @ join '', '' (host c # fallbackServers c) @ ''): ''
                         @ message (projl (queryServer rt c (fst (last trace)) (snd (last trace))))))"
proof -
  let ?servers = "host c # fallbackServers c"
  from assms
  have loop: "query_loop rt c (recording net) ?servers ?servers None (w, []) = (res, (w', trace))"
    by (simp add: query_def)
  from query_loop_recording [OF loop]
  have plain: "query_loop rt c net ?servers ?servers None w = (res, w')"
    and body: "(case res of
         Inr result \<Rightarrow>
           (\<exists>fails server ev more. trace = fails @ [(server, ev)] \<and> ?servers = map fst trace @ more
              \<and> list_all (\<lambda>(s, ev). isl (queryServer rt c s ev)) fails
              \<and> queryServer rt c server ev = Inr result)
       | Inl e \<Rightarrow>
           map fst trace = ?servers
           \<and> list_all (\<lambda>(s, ev). isl (queryServer rt c s ev)) trace
           \<and> e = Error (''NTP query failed for all servers ('' @ join '', '' ?servers @ ''): ''
                 @ (case (if trace = [] then None
                          else Some (projl (queryServer rt c (fst (last trace)) (snd (last trace))))) of
                      None \<Rightarrow> ''undefined''
                    | Some e' \<Rightarrow> message e')))"
    by auto
  have q: "query rt c net w = (res, w')" using plain by (simp add: query_def)
  show ?thesis
  proof (cases res)
    case (Inr result)
    with body obtain fails server ev more
      where t: "trace = fails @ [(server, ev)]" and s: "?servers = map fst trace @ more"
        and f: "list_all (\<lambda>(s, ev). isl (queryServer rt c s ev)) fails"
        and r: "queryServer rt c server ev = Inr result"
      by auto
    from s have "take (length trace) ?servers = take (length trace) (map fst trace @ more)"
      by simp
    then have p: "map fst trace = take (length trace) ?servers" by simp
    from t have "server \<in> set (map fst trace)" by simp
    with s have m: "server \<in> set ?servers" by (metis Un_iff set_append)
    from t p f r queryServer_InrD(2) [OF r] m
    have "\<exists>fails server ev. trace = fails @ [(server, ev)]
              \<and> map fst trace = take (length trace) ?servers
              \<and> list_all (\<lambda>(s, ev). isl (queryServer rt c s ev)) fails
              \<and> queryServer rt c server ev = Inr result
              \<and> usedServer result = Some server
              \<and> server \<in> set ?servers"
      by blast
    with q Inr show ?thesis by simp
  next
    case (Inl e)
    with body have b: "map fst trace = ?servers"
      "list_all (\<lambda>(s, ev). isl (queryServer rt c s ev)) trace"
      "e = Error (''NTP query failed for all servers ('' @ join '', '' ?servers @ ''): ''
                 @ (case (if trace = [] then None
                          else Some (projl (queryServer rt c (fst (last trace)) (snd (last trace))))) of
                      None \<Rightarrow> ''undefined''
                    | Some e' \<Rightarrow> message e'))"
      by simp_all
    from b(1) have "trace \<noteq> []" by auto
    with b(3) have "e = Error (''NTP query failed for all servers ('' @ join '', '' ?servers @ ''): ''
                 @ message (projl (queryServer rt c (fst (last trace)) (snd (last trace)))))"
      by simp
    with q Inl b(1,2) show ?thesis by simp
  qed
qed

theorem query_fallback_witness:
  "(\<exists>result.
      query plain_runtime default_client (recording scripted_net)
        ([TimerExpired, Message sample_packet ''203.0.113.7'' 1767145857000 1767145857001], [])
      = (Inr result,
         ([], [(''time.hixbe.com'', TimerExpired),
               (''time.google.com'', Message sample_packet ''203.0.113.7'' 1767145857000 1767145857001)]))
      \<and> usedServer result = Some ''time.google.com'')
   \<and> query plain_runtime default_client (recording scripted_net) ([], [])
      = (Inl (Error (''NTP query failed for all servers (time.hixbe.com, time.google.com, pool.ntp.org): ''
                      @ ''NTP request timeout after 5000ms to pool.ntp.org'')),
         ([], [(''time.hixbe.com'', TimerExpired), (''time.google.com'', TimerExpired),
               (''pool.ntp.org'', TimerExpired)]))"
proof -
  let ?msg = "Message sample_packet ''203.0.113.7'' 1767145857000 1767145857001"
  have "48 \<le> length sample_packet" by (simp add: sample_packet_length)
  then obtain p where p: "parsePacket plain_runtime sample_packet = Inr p"
    using parsePacket_total by blast
  then obtain result where r: "queryServer plain_runtime default_client ''time.google.com'' ?msg = Inr result"
    by (simp add: queryServer_def)
  have run1: "query plain_runtime default_client (recording scripted_net) ([TimerExpired, ?msg], [])
      = (Inr result, ([], [(''time.hixbe.com'', TimerExpired), (''time.google.com'', ?msg)]))"
    by (simp add: query_def default_servers recording_def scripted_net_def timeout_message r)
  have run2: "query plain_runtime default_client (recording scripted_net) ([], [])
      = (Inl (Error (''NTP query failed for all servers (time.hixbe.com, time.google.com, pool.ntp.org): ''
                      @ ''NTP request timeout after 5000ms to pool.ntp.org'')),
         ([], [(''time.hixbe.com'', TimerExpired), (''time.google.com'', TimerExpired),
               (''pool.ntp.org'', TimerExpired)]))"
    by (simp add: query_def default_servers recording_def scripted_net_def timeout_message)
  from query_fallback [OF run1] have "usedServer result = Some ''time.google.com''"
    by auto
  with run1 run2 show ?thesis by blast
qed

text \<open>
  Claim C4. For the raw seconds value read from a timestamp field, the Unix seconds of
  the parsed timestamp are exactly the raw seconds minus 2208988800: the subtraction on
  doubles has no rounding error. Every unsigned 32-bit value is such a raw seconds value
  (second conjunct).
\<close>

theorem unix_seconds_exact:
  "(parseNTPTimestamp rt buf offset = Inr ts \<longrightarrow>
      readUInt32BE buf offset = Inr (RawNTPTimestamp.seconds (raw ts))
      \<and> UnixTime.seconds (unix ts) = of_int (uint (RawNTPTimestamp.seconds (raw ts)) - 2208988800))
   \<and> (\<forall>s f. \<exists>ts'. parseNTPTimestamp rt (writeUInt32BE s @ writeUInt32BE f) 0 = Inr ts'
          \<and> RawNTPTimestamp.seconds (raw ts') = s
          \<and> UnixTime.seconds (unix ts') = of_int (uint s - 2208988800))"
proof (intro conjI impI allI)
  assume p: "parseNTPTimestamp rt buf offset = Inr ts"
  show "readUInt32BE buf offset = Inr (RawNTPTimestamp.seconds (raw ts))"
    by (rule parseNTPTimestamp_InrD(1) [OF p])
  show "UnixTime.seconds (unix ts) = of_int (uint (RawNTPTimestamp.seconds (raw ts)) - 2208988800)"
    by (simp only: parseNTPTimestamp_InrD(3) [OF p] unixSeconds_exact)
next
  fix s f :: "32 word"
  let ?buf = "writeUInt32BE s @ writeUInt32BE f"
  have "0 + 8 \<le> length ?buf" by (simp add: writeUInt32BE_def)
  then obtain ts' where p: "parseNTPTimestamp rt ?buf 0 = Inr ts'"
    using parseNTPTimestamp_total by blast
  have "readUInt32BE ?buf 0 = Inr s" by (rule readUInt32BE_writeUInt32BE)
  with parseNTPTimestamp_InrD(1) [OF p] have s: "RawNTPTimestamp.seconds (raw ts') = s" by simp
  have "UnixTime.seconds (unix ts') = of_int (uint s - 2208988800)"
    by (simp only: parseNTPTimestamp_InrD(3) [OF p] unixSeconds_exact s)
  with p s show "\<exists>ts'. parseNTPTimestamp rt ?buf 0 = Inr ts'
          \<and> RawNTPTimestamp.seconds (raw ts') = s
          \<and> UnixTime.seconds (unix ts') = of_int (uint s - 2208988800)" by blast
qed

theorem unix_seconds_exact_witness:
  "\<exists>ts. parseNTPTimestamp plain_runtime sample_packet 40 = Inr ts
     \<and> RawNTPTimestamp.seconds (raw ts) = 0xECFF0001
     \<and> UnixTime.seconds (unix ts) = 1767145857"
proof -
  have "40 + 8 \<le> length sample_packet" by (simp add: sample_packet_length)
  then obtain ts where p: "parseNTPTimestamp plain_runtime sample_packet 40 = Inr ts"
    using parseNTPTimestamp_total by blast
  from unix_seconds_exact [of plain_runtime sample_packet 40 ts] p
  have r: "readUInt32BE sample_packet 40 = Inr (RawNTPTimestamp.seconds (raw ts))"
    and u: "UnixTime.seconds (unix ts) = of_int (uint (RawNTPTimestamp.seconds (raw ts)) - 2208988800)"
    by blast+
  have "readUInt32BE sample_packet 40 = Inr 0xECFF0001"
    by (simp add: readUInt32BE_def sample_packet_def)
  with r have s: "RawNTPTimestamp.seconds (raw ts) = 0xECFF0001" by simp
  from u have "UnixTime.seconds (unix ts) = 1767145857" by (simp add: s)
  with p s show ?thesis by blast
qed

text \<open>
  Claim C5, as stated, fails: for stratum 0 the code returns the literal \<^verbatim>\<open>KISS\<close> before
  it looks at the reference identifier, so the bytes \<^verbatim>\<open>DENY\<close> are not decoded.
\<close>

theorem kiss_referenceId_counterexample:
  "\<not> isl (parsePacket plain_runtime deny_packet)
   \<and> stratum (header (projr (parsePacket plain_runtime deny_packet))) = 0
   \<and> toString_ascii (take 4 (drop 12 deny_packet)) = ''DENY''
   \<and> referenceId (header (projr (parsePacket plain_runtime deny_packet))) = ''KISS''
   \<and> referenceId (header (projr (parsePacket plain_runtime deny_packet))) \<noteq> ''DENY''"
proof -
  have "48 \<le> length deny_packet" by (simp add: deny_packet_length)
  then obtain p where p: "parsePacket plain_runtime deny_packet = Inr p"
    using parsePacket_total by blast
  have s: "deny_packet ! 1 = 0" by (simp add: deny_packet_def)
  from parsePacket_InrD(8) [OF p] s have k: "referenceId (header p) = ''KISS''"
    by (auto simp add: formatReferenceId_def)
  have "toString_ascii (take 4 (drop 12 deny_packet)) = ''DENY''"
    by (simp add: deny_packet_def toString_ascii_def asciiChar_def)
  with k parsePacket_InrD(9) [OF p] s show ?thesis by (simp add: p)
qed

text \<open>
  Claim C5, amended. A packet with stratum 0 decodes \<^verbatim>\<open>header.referenceId\<close> to the literal
  string \<^verbatim>\<open>KISS\<close>, whatever its reference identifier bytes are.
\<close>

theorem kiss_referenceId:
  assumes "parsePacket rt buf = Inr p" and "stratum (header p) = 0"
  shows "referenceId (header p) = ''KISS''"
  using parsePacket_InrD(8,9) [OF assms(1)] assms(2)
  by (auto simp add: formatReferenceId_def)

theorem kiss_referenceId_witness:
  "\<exists>p. parsePacket plain_runtime deny_packet = Inr p \<and> stratum (header p) = 0
     \<and> referenceId (header p) = ''KISS''"
proof -
  have "48 \<le> length deny_packet" by (simp add: deny_packet_length)
  then obtain p where p: "parsePacket plain_runtime deny_packet = Inr p"
    using parsePacket_total by blast
  have "deny_packet ! 1 = 0" by (simp add: deny_packet_def)
  with parsePacket_InrD(9) [OF p] have s: "stratum (header p) = 0" by simp
  from kiss_referenceId [OF p s] p s show ?thesis by blast
qed

text \<open>
  Claim C6. The reference identifier of a parsed packet is formatted by stratum. For
  stratum 1 it is the four bytes 12 to 15 of the packet read as ASCII, with the NUL
  characters removed (\<^verbatim>\<open>47 50 53 00\<close> gives \<^verbatim>\<open>GPS\<close>); for every stratum from 2 to 255 it
  is \<^verbatim>\<open>0x\<close> followed by exactly eight upper-case hexadecimal digits that denote the
  32-bit identifier (\<^verbatim>\<open>0xD8EF230C\<close> gives \<^verbatim>\<open>0xD8EF230C\<close>).
\<close>

theorem referenceId_by_stratum:
  assumes "parsePacket rt buf = Inr p"
  shows "(stratum (header p) = 1 \<longrightarrow>
           referenceId (header p)
             = filter (\<lambda>c. c \<noteq> CHR 0x00) (toString_ascii (take 4 (drop 12 buf))))
    \<and> (2 \<le> unat (stratum (header p)) \<longrightarrow>
         (\<exists>ident ds. readUInt32BE buf 12 = Inr ident
            \<and> referenceId (header p) = ''0x'' @ ds \<and> length ds = 8
            \<and> set ds \<subseteq> set ''0123456789ABCDEF'' \<and> hexValue ds = unat ident))
    \<and> formatReferenceId 0x47505300 1 = ''GPS''
    \<and> formatReferenceId 0xD8EF230C 2 = ''0xD8EF230C''"
proof (intro conjI impI)
  from parsePacket_InrD(8) [OF assms] obtain ident
    where r: "readUInt32BE buf 12 = Inr ident"
      and f: "referenceId (header p) = formatReferenceId ident (buf ! 1)" by blast
  note s = parsePacket_InrD(9) [OF assms]
  {
    assume "stratum (header p) = 1"
    with s f show "referenceId (header p)
             = filter (\<lambda>c. c \<noteq> CHR 0x00) (toString_ascii (take 4 (drop 12 buf)))"
      by (simp add: formatReferenceId_def writeUInt32BE_readUInt32BE [OF r])
  }
  {
    assume "2 \<le> unat (stratum (header p))"
    then have "buf ! 1 \<noteq> 0" "buf ! 1 \<noteq> 1" using s by auto
    from formatReferenceId_hex [OF this, of ident] r f
    show "\<exists>ident ds. readUInt32BE buf 12 = Inr ident
            \<and> referenceId (header p) = ''0x'' @ ds \<and> length ds = 8
            \<and> set ds \<subseteq> set ''0123456789ABCDEF'' \<and> hexValue ds = unat ident"
      by auto
  }
  show "formatReferenceId 0x47505300 1 = ''GPS''"
    by (simp add: formatReferenceId_def writeUInt32BE_def toString_ascii_def asciiChar_def)
  show "formatReferenceId 0xD8EF230C 2 = ''0xD8EF230C''"
    by (simp add: formatReferenceId_def toStringRadix.simps padStart_def toUpperCase_def
        toUpperCase_char_def digitChar_def)
qed

theorem referenceId_by_stratum_witness:
  "(\<exists>p. parsePacket plain_runtime gps_packet = Inr p
     \<and> stratum (header p) = 1
     \<and> take 4 (drop 12 gps_packet) = [0x47, 0x50, 0x53, 0x00]
     \<and> referenceId (header p) = ''GPS'')
   \<and> (\<exists>p. parsePacket plain_runtime sample_packet = Inr p
     \<and> 2 \<le> unat (stratum (header p))
     \<and> (\<exists>ident ds. readUInt32BE sample_packet 12 = Inr ident
            \<and> referenceId (header p) = ''0x'' @ ds \<and> length ds = 8
            \<and> set ds \<subseteq> set ''0123456789ABCDEF'' \<and> hexValue ds = unat ident))"
proof (intro conjI)
  have "48 \<le> length gps_packet" by (simp add: gps_packet_def)
  then obtain p where p: "parsePacket plain_runtime gps_packet = Inr p"
    using parsePacket_total by blast
  have "gps_packet ! 1 = 1" by (simp add: gps_packet_def)
  with parsePacket_InrD(9) [OF p] have s: "stratum (header p) = 1" by simp
  have b: "take 4 (drop 12 gps_packet) = [0x47, 0x50, 0x53, 0x00]" by (simp add: gps_packet_def)
  from referenceId_by_stratum [OF p] s
  have "referenceId (header p)
          = filter (\<lambda>c. c \<noteq> CHR 0x00) (toString_ascii (take 4 (drop 12 gps_packet)))"
    by blast
  then have "referenceId (header p) = ''GPS''"
    by (simp add: b toString_ascii_def asciiChar_def)
  with p s b show "\<exists>p. parsePacket plain_runtime gps_packet = Inr p
     \<and> stratum (header p) = 1
     \<and> take 4 (drop 12 gps_packet) = [0x47, 0x50, 0x53, 0x00]
     \<and> referenceId (header p) = ''GPS''" by blast
next
  have "48 \<le> length sample_packet" by (simp add: sample_packet_length)
  then obtain p where p: "parsePacket plain_runtime sample_packet = Inr p"
    using parsePacket_total by blast
  have "sample_packet ! 1 = 2" by (simp add: sample_packet_def)
  with parsePacket_InrD(9) [OF p] have s: "2 \<le> unat (stratum (header p))" by simp
  from referenceId_by_stratum [OF p] s p show "\<exists>p. parsePacket plain_runtime sample_packet = Inr p
     \<and> 2 \<le> unat (stratum (header p))
     \<and> (\<exists>ident ds. readUInt32BE sample_packet 12 = Inr ident
            \<and> referenceId (header p) = ''0x'' @ ds \<and> length ds = 8
            \<and> set ds \<subseteq> set ''0123456789ABCDEF'' \<and> hexValue ds = unat ident)" by blast
qed

text \<open>
  Claim C7. \<open>getOffset\<close> delegates to \<open>query\<close>: it fails with the error of \<open>query\<close>, and
  on a result it returns the time value of the transmit timestamp's date (its calendar
  value in milliseconds, equal to the field \<^verbatim>\<open>timestamp\<close>) minus the client-receive
  time in milliseconds; the subtraction on doubles is exact for every valid receive date.
  This two-point offset is not the four-timestamp offset of \<open>calculateMetrics\<close>: on the
  worked example the first is -150 ms and the second about -25 ms (last conjunct).
\<close>

theorem getOffset_two_point:
  "(query rt c net w = (Inl e, w') \<longrightarrow> getOffset rt c net w = (Inl e, w'))
   \<and> (query rt c net w = (Inr result, w') \<longrightarrow>
        getOffset rt c net w
          = (Inr (fsub (of_int (date (transmit (timestamps (parsed result)))))
                       (of_int (clientReceiveTime result))), w')
        \<and> timestamp (transmit (timestamps (parsed result)))
            = date (transmit (timestamps (parsed result)))
        \<and> (\<bar>clientReceiveTime result\<bar> \<le> 8640000000000000 \<longrightarrow>
             getOffset rt c net w
               = (Inr (of_int (date (transmit (timestamps (parsed result)))
                                 - clientReceiveTime result)), w')))
   \<and> (\<exists>p T1 T4. (of_int (date (transmit (timestamps p)) - T4) :: number)
                   \<noteq> clockOffsetMs (calculateMetrics p T1 T4))"
proof (intro conjI impI)
  assume "query rt c net w = (Inl e, w')"
  then show "getOffset rt c net w = (Inl e, w')" by (simp add: getOffset_def)
next
  assume q: "query rt c net w = (Inr result, w')"
  then show g: "getOffset rt c net w
          = (Inr (fsub (of_int (date (transmit (timestamps (parsed result)))))
                       (of_int (clientReceiveTime result))), w')"
    by (simp add: getOffset_def Let_def)
  from q have "query_loop rt c net (host c # fallbackServers c) (host c # fallbackServers c) None w
                 = (Inr result, w')"
    by (simp add: query_def)
  from query_loop_parsed [OF this] obtain buf where p: "parsePacket rt buf = Inr (parsed result)"
    by blast
  note t = parsePacket_InrD(5) [OF p]
  show "timestamp (transmit (timestamps (parsed result)))
            = date (transmit (timestamps (parsed result)))"
    by (rule parseNTPTimestamp_InrD(6) [OF t])
  assume "\<bar>clientReceiveTime result\<bar> \<le> 8640000000000000"
  with parseNTPTimestamp_date_bound [OF t]
  have "fsub (of_int (date (transmit (timestamps (parsed result)))))
             (of_int (clientReceiveTime result))
        = of_int (date (transmit (timestamps (parsed result))) - clientReceiveTime result)"
    by (rule getOffset_exact)
  with g show "getOffset rt c net w
               = (Inr (of_int (date (transmit (timestamps (parsed result)))
                                 - clientReceiveTime result)), w')"
    by simp
next
  have h: "UnixTime.seconds (unix (receive (timestamps worked_example))) = 1000"
    "milliseconds (unix (receive (timestamps worked_example))) = 100"
    "UnixTime.seconds (unix (transmit (timestamps worked_example))) = 1000"
    "milliseconds (unix (transmit (timestamps worked_example))) = 100"
    by (simp_all add: worked_example_def worked_timestamp_def)
  have "date (transmit (timestamps worked_example)) = 1000100"
    by (simp add: worked_example_def worked_timestamp_def)
  then have "(of_int (date (transmit (timestamps worked_example)) - 1000250) :: number)
             \<noteq> clockOffsetMs (calculateMetrics worked_example 1000000 1000250)"
    by (simp add: worked_metrics(3) [OF h])
  then show "\<exists>p T1 T4. (of_int (date (transmit (timestamps p)) - T4) :: number)
                   \<noteq> clockOffsetMs (calculateMetrics p T1 T4)"
    by blast
qed

theorem getOffset_two_point_witness:
  "(\<exists>result.
     query plain_runtime default_client scripted_net
       [Message sample_packet ''203.0.113.7'' 1767145857000 1767145857001] = (Inr result, [])
     \<and> \<bar>clientReceiveTime result\<bar> \<le> 8640000000000000
     \<and> date (transmit (timestamps (parsed result))) = 1767145857100
     \<and> clientReceiveTime result = 1767145857000
     \<and> getOffset plain_runtime default_client scripted_net
         [Message sample_packet ''203.0.113.7'' 1767145857000 1767145857001] = (Inr 100, []))
   \<and> getOffset plain_runtime default_client scripted_net []
       = (Inl (Error (''NTP query failed for all servers (time.hixbe.com, time.google.com, pool.ntp.org): ''
                      @ ''NTP request timeout after 5000ms to pool.ntp.org'')), [])"
proof (intro conjI)
  let ?msg = "Message sample_packet ''203.0.113.7'' 1767145857000 1767145857001"
  have "48 \<le> length sample_packet" by (simp add: sample_packet_length)
  then obtain p where p: "parsePacket plain_runtime sample_packet = Inr p"
    using parsePacket_total by blast
  then obtain result
    where r: "queryServer plain_runtime default_client ''time.hixbe.com'' ?msg = Inr result"
      and pr: "parsed result = p" and cr: "clientReceiveTime result = 1767145857000"
    by (simp add: queryServer_def)
  have q: "query plain_runtime default_client scripted_net [?msg] = (Inr result, [])"
    by (simp add: query_def default_servers scripted_net_def r)
  have b: "\<bar>clientReceiveTime result\<bar> \<le> 8640000000000000" by (simp add: cr)
  have d: "date (transmit (timestamps (parsed result))) = 1767145857100"
    using sample_transmit_date [OF p] by (simp add: pr)
  from getOffset_two_point [of plain_runtime default_client scripted_net "[?msg]" _ "[]" result] q b
  have "getOffset plain_runtime default_client scripted_net [?msg]
        = (Inr (of_int (date (transmit (timestamps (parsed result))) - clientReceiveTime result)), [])"
    by blast
  then have "getOffset plain_runtime default_client scripted_net [?msg] = (Inr 100, [])"
    by (simp add: d cr)
  with q b d cr show "\<exists>result.
     query plain_runtime default_client scripted_net [?msg] = (Inr result, [])
     \<and> \<bar>clientReceiveTime result\<bar> \<le> 8640000000000000
     \<and> date (transmit (timestamps (parsed result))) = 1767145857100
     \<and> clientReceiveTime result = 1767145857000
     \<and> getOffset plain_runtime default_client scripted_net [?msg] = (Inr 100, [])" by blast
next
  let ?e = "Error (''NTP query failed for all servers (time.hixbe.com, time.google.com, pool.ntp.org): ''
                      @ ''NTP request timeout after 5000ms to pool.ntp.org'')"
  have q: "query plain_runtime default_client scripted_net [] = (Inl ?e, [])"
    by (simp add: query_def default_servers scripted_net_def timeout_message)
  from getOffset_two_point [of plain_runtime default_client scripted_net "[]" ?e "[]"] q
  show "getOffset plain_runtime default_client scripted_net [] = (Inl ?e, [])" by blast
qed

text \<open>
  Claim C8. For every buffer of at least 48 bytes the parser returns a packet, and writing
  the raw seconds and fraction of each of its four timestamps as big-endian 32-bit words
  gives back the eight bytes at offsets 16-23, 24-31, 32-39 and 40-47 of the buffer.
\<close>

theorem timestamp_fields_roundtrip:
  assumes "48 \<le> length buf"
  shows "\<exists>p. parsePacket rt buf = Inr p
     \<and> writeUInt32BE (RawNTPTimestamp.seconds (raw (reference (timestamps p))))
           @ writeUInt32BE (fraction (raw (reference (timestamps p)))) = take 8 (drop 16 buf)
     \<and> writeUInt32BE (RawNTPTimestamp.seconds (raw (originate (timestamps p))))
           @ writeUInt32BE (fraction (raw (originate (timestamps p)))) = take 8 (drop 24 buf)
     \<and> writeUInt32BE (RawNTPTimestamp.seconds (raw (receive (timestamps p))))
           @ writeUInt32BE (fraction (raw (receive (timestamps p)))) = take 8 (drop 32 buf)
     \<and> writeUInt32BE (RawNTPTimestamp.seconds (raw (transmit (timestamps p))))
           @ writeUInt32BE (fraction (raw (transmit (timestamps p)))) = take 8 (drop 40 buf)"
proof -
  from assms obtain p where p: "parsePacket rt buf = Inr p"
    using parsePacket_total by blast
  note ts = parsePacket_InrD(2-5) [OF p]
  show ?thesis
    using p timestamp_bytes [OF ts(1)] timestamp_bytes [OF ts(2)]
      timestamp_bytes [OF ts(3)] timestamp_bytes [OF ts(4)]
    by blast
qed

theorem timestamp_fields_roundtrip_witness:
  "48 \<le> length sample_packet
   \<and> (\<exists>p. parsePacket plain_runtime sample_packet = Inr p
     \<and> writeUInt32BE (RawNTPTimestamp.seconds (raw (reference (timestamps p))))
           @ writeUInt32BE (fraction (raw (reference (timestamps p))))
         = [0xEC, 0xFF, 0x00, 0x00, 0x80, 0x00, 0x00, 0x00]
     \<and> writeUInt32BE (RawNTPTimestamp.seconds (raw (transmit (timestamps p))))
           @ writeUInt32BE (fraction (raw (transmit (timestamps p))))
         = [0xEC, 0xFF, 0x00, 0x01, 0x19, 0x99, 0x99, 0x9A])"
proof -
  have len: "48 \<le> length sample_packet" by (simp add: sample_packet_length)
  have a: "take 8 (drop 16 sample_packet) = [0xEC, 0xFF, 0x00, 0x00, 0x80, 0x00, 0x00, 0x00]"
    by (simp add: sample_packet_def)
  have b: "take 8 (drop 40 sample_packet) = [0xEC, 0xFF, 0x00, 0x01, 0x19, 0x99, 0x99, 0x9A]"
    by (simp add: sample_packet_def)
  from timestamp_fields_roundtrip [OF len, of plain_runtime] len show ?thesis
    unfolding a b by blast
qed

text \<open>
  Claim C9, as stated, fails for its third value: fraction \<^verbatim>\<open>0xFFFFFFFF\<close> gives
  \<open>1000 - 1000 / 2 ^ 32 = 999.99999976716...\<close> milliseconds, which is \<open>0.0001997...\<close> away
  from the stated 999.9998, more than one unit of its last digit and nine orders of
  magnitude more than the rounding error of a double at this size.
\<close>

theorem milliseconds_of_fraction_counterexample:
  "\<not> isl (parseNTPTimestamp plain_runtime sample_packet 32)
   \<and> fraction (raw (projr (parseNTPTimestamp plain_runtime sample_packet 32))) = 0xFFFFFFFF
   \<and> 1 / 10000 < \<bar>milliseconds (unix (projr (parseNTPTimestamp plain_runtime sample_packet 32)))
                      - 9999998 / 10000\<bar>"
proof -
  have "32 + 8 \<le> length sample_packet" by (simp add: sample_packet_length)
  then obtain ts where p: "parseNTPTimestamp plain_runtime sample_packet 32 = Inr ts"
    using parseNTPTimestamp_total by blast
  have "readUInt32BE sample_packet (32 + 4) = Inr 0xFFFFFFFF"
    by (simp add: readUInt32BE_def sample_packet_def)
  with parseNTPTimestamp_InrD(2) [OF p] have f: "fraction (raw ts) = 0xFFFFFFFF" by simp
  have "milliseconds (unix ts) = of_int (uint (fraction (raw ts))) * 1000 / 4294967296"
    by (simp only: parseNTPTimestamp_InrD(4) [OF p] milliseconds_exact)
  then have "milliseconds (unix ts) = 4294967295000 / 4294967296" by (simp add: f)
  then have "1 / 10000 < \<bar>milliseconds (unix ts) - 9999998 / 10000\<bar>" by simp
  with f show ?thesis by (simp add: p)
qed

text \<open>
  Claim C9, amended. For every unsigned 32-bit fraction the fractional milliseconds of
  the parsed timestamp are exactly \<open>fraction * 1000 / 2 ^ 32\<close> (both operations on
  doubles are exact here): fraction 0 gives 0, fraction \<^verbatim>\<open>0x80000000\<close> gives exactly 500,
  and fraction \<^verbatim>\<open>0xFFFFFFFF\<close> gives \<open>1000 - 1000 / 2 ^ 32\<close>, that is 999.9999997672 up to
  \<open>1e-10\<close>.
\<close>

theorem milliseconds_of_fraction:
  "(parseNTPTimestamp rt buf offset = Inr ts \<longrightarrow>
      readUInt32BE buf (offset + 4) = Inr (fraction (raw ts))
      \<and> milliseconds (unix ts) = of_int (uint (fraction (raw ts))) * 1000 / 4294967296
      \<and> (fraction (raw ts) = 0x00000000 \<longrightarrow> milliseconds (unix ts) = 0)
      \<and> (fraction (raw ts) = 0x80000000 \<longrightarrow> milliseconds (unix ts) = 500)
      \<and> (fraction (raw ts) = 0xFFFFFFFF \<longrightarrow>
            milliseconds (unix ts) = 1000 - 1000 / 4294967296
            \<and> \<bar>milliseconds (unix ts) - 9999999997672 / 10000000000\<bar> < 1 / 10000000000))
   \<and> (\<forall>s f. \<exists>ts'. parseNTPTimestamp rt (writeUInt32BE s @ writeUInt32BE f) 0 = Inr ts'
          \<and> fraction (raw ts') = f
          \<and> milliseconds (unix ts') = of_int (uint f) * 1000 / 4294967296)"
proof (intro conjI impI allI)
  assume p: "parseNTPTimestamp rt buf offset = Inr ts"
  show "readUInt32BE buf (offset + 4) = Inr (fraction (raw ts))"
    by (rule parseNTPTimestamp_InrD(2) [OF p])
  show m: "milliseconds (unix ts) = of_int (uint (fraction (raw ts))) * 1000 / 4294967296"
    by (simp only: parseNTPTimestamp_InrD(4) [OF p] milliseconds_exact)
  {
    assume "fraction (raw ts) = 0x00000000"
    with m show "milliseconds (unix ts) = 0" by simp
  }
  {
    assume "fraction (raw ts) = 0x80000000"
    with m show "milliseconds (unix ts) = 500" by simp
  }
  {
    assume "fraction (raw ts) = 0xFFFFFFFF"
    with m have v: "milliseconds (unix ts) = 4294967295000 / 4294967296" by simp
    then show "milliseconds (unix ts) = 1000 - 1000 / 4294967296" by simp
    from v show "\<bar>milliseconds (unix ts) - 9999999997672 / 10000000000\<bar> < 1 / 10000000000"
      by simp
  }
next
  fix s f :: "32 word"
  let ?buf = "writeUInt32BE s @ writeUInt32BE f"
  have "0 + 8 \<le> length ?buf" by (simp add: writeUInt32BE_def)
  then obtain ts' where p: "parseNTPTimestamp rt ?buf 0 = Inr ts'"
    using parseNTPTimestamp_total by blast
  have "readUInt32BE ?buf (0 + 4) = Inr f"
    using readUInt32BE_writeUInt32BE [of f "[]"]
    by (simp add: readUInt32BE_def writeUInt32BE_def del: of_nat_add of_nat_mult)
  with parseNTPTimestamp_InrD(2) [OF p] have f: "fraction (raw ts') = f" by simp
  have "milliseconds (unix ts') = of_int (uint f) * 1000 / 4294967296"
    by (simp only: parseNTPTimestamp_InrD(4) [OF p] milliseconds_exact f)
  with p f show "\<exists>ts'. parseNTPTimestamp rt ?buf 0 = Inr ts'
          \<and> fraction (raw ts') = f
          \<and> milliseconds (unix ts') = of_int (uint f) * 1000 / 4294967296" by blast
qed

theorem milliseconds_of_fraction_witness:
  "(\<exists>ts. parseNTPTimestamp plain_runtime sample_packet 16 = Inr ts
     \<and> fraction (raw ts) = 0x80000000 \<and> milliseconds (unix ts) = 500)
   \<and> (\<exists>ts. parseNTPTimestamp plain_runtime sample_packet 24 = Inr ts
     \<and> fraction (raw ts) = 0x00000000 \<and> milliseconds (unix ts) = 0)
   \<and> (\<exists>ts. parseNTPTimestamp plain_runtime sample_packet 32 = Inr ts
     \<and> fraction (raw ts) = 0xFFFFFFFF \<and> milliseconds (unix ts) = 1000 - 1000 / 4294967296)"
proof (intro conjI)
  have "16 + 8 \<le> length sample_packet" by (simp add: sample_packet_length)
  then obtain ts where p: "parseNTPTimestamp plain_runtime sample_packet 16 = Inr ts"
    using parseNTPTimestamp_total by blast
  from milliseconds_of_fraction [of plain_runtime sample_packet 16 ts] p
  have r: "readUInt32BE sample_packet (16 + 4) = Inr (fraction (raw ts))"
    and h: "fraction (raw ts) = 0x80000000 \<longrightarrow> milliseconds (unix ts) = 500"
    by blast+
  have "readUInt32BE sample_packet (16 + 4) = Inr 0x80000000"
    by (simp add: readUInt32BE_def sample_packet_def)
  with r have "fraction (raw ts) = 0x80000000" by simp
  with h p show "\<exists>ts. parseNTPTimestamp plain_runtime sample_packet 16 = Inr ts
     \<and> fraction (raw ts) = 0x80000000 \<and> milliseconds (unix ts) = 500" by blast
next
  have "24 + 8 \<le> length sample_packet" by (simp add: sample_packet_length)
  then obtain ts where p: "parseNTPTimestamp plain_runtime sample_packet 24 = Inr ts"
    using parseNTPTimestamp_total by blast
  from milliseconds_of_fraction [of plain_runtime sample_packet 24 ts] p
  have r: "readUInt32BE sample_packet (24 + 4) = Inr (fraction (raw ts))"
    and h: "fraction (raw ts) = 0x00000000 \<longrightarrow> milliseconds (unix ts) = 0"
    by blast+
  have "readUInt32BE sample_packet (24 + 4) = Inr 0x00000000"
    by (simp add: readUInt32BE_def sample_packet_def)
  with r have "fraction (raw ts) = 0x00000000" by simp
  with h p show "\<exists>ts. parseNTPTimestamp plain_runtime sample_packet 24 = Inr ts
     \<and> fraction (raw ts) = 0x00000000 \<and> milliseconds (unix ts) = 0" by blast
next
  have "32 + 8 \<le> length sample_packet" by (simp add: sample_packet_length)
  then obtain ts where p: "parseNTPTimestamp plain_runtime sample_packet 32 = Inr ts"
    using parseNTPTimestamp_total by blast
  from milliseconds_of_fraction [of plain_runtime sample_packet 32 ts] p
  have r: "readUInt32BE sample_packet (32 + 4) = Inr (fraction (raw ts))"
    and h: "fraction (raw ts) = 0xFFFFFFFF \<longrightarrow>
            milliseconds (unix ts) = 1000 - 1000 / 4294967296
            \<and> \<bar>milliseconds (unix ts) - 9999999997672 / 10000000000\<bar> < 1 / 10000000000"
    by blast+
  have "readUInt32BE sample_packet (32 + 4) = Inr 0xFFFFFFFF"
    by (simp add: readUInt32BE_def sample_packet_def)
  with r have "fraction (raw ts) = 0xFFFFFFFF" by simp
  with h p show "\<exists>ts. parseNTPTimestamp plain_runtime sample_packet 32 = Inr ts
     \<and> fraction (raw ts) = 0xFFFFFFFF \<and> milliseconds (unix ts) = 1000 - 1000 / 4294967296"
    by blast
qed

text \<open>
  Claim C10. \<open>parsePacket\<close> is a function of the first 48 bytes of its input: two buffers
  of at least 48 bytes that agree on the bytes 0 to 47 give equal results (under the same
  runtime for the two date renderings), and the result is a packet.
\<close>

theorem parsePacket_first_48_bytes:
  assumes "48 \<le> length a" and "48 \<le> length b" and "take 48 a = take 48 b"
  shows "parsePacket rt a = parsePacket rt b \<and> (\<exists>p. parsePacket rt a = Inr p)"
proof -
  have "parsePacket rt a = parsePacket rt (take 48 a)"
    by (rule parsePacket_take [OF assms(1), symmetric])
  also have "\<dots> = parsePacket rt (take 48 b)" by (simp only: assms(3))
  also have "\<dots> = parsePacket rt b" by (rule parsePacket_take [OF assms(2)])
  finally show ?thesis using parsePacket_total [OF assms(1)] by blast
qed

theorem parsePacket_first_48_bytes_witness:
  "48 \<le> length sample_packet \<and> 48 \<le> length (sample_packet @ [0xFF, 0x00, 0x7F])
   \<and> take 48 sample_packet = take 48 (sample_packet @ [0xFF, 0x00, 0x7F])
   \<and> parsePacket plain_runtime sample_packet = parsePacket plain_runtime (sample_packet @ [0xFF, 0x00, 0x7F])
   \<and> (\<exists>p. parsePacket plain_runtime sample_packet = Inr p)"
proof -
  have l1: "48 \<le> length sample_packet" by (simp add: sample_packet_length)
  have l2: "48 \<le> length (sample_packet @ [0xFF, 0x00, 0x7F])" by (simp add: sample_packet_length)
  have t: "take 48 sample_packet = take 48 (sample_packet @ [0xFF, 0x00, 0x7F])"
    by (simp add: sample_packet_length)
  from parsePacket_first_48_bytes [OF l1 l2 t, of plain_runtime] l1 l2 t show ?thesis by blast
qed

end
